theory Spec2Isabelle
  imports Complex_Main
begin

section \<open>Numeric values and raised errors\<close>

text \<open>
  The model follows \<^verbatim>\<open>ThreesModel.run_threes_model\<close> of \<^verbatim>\<open>model/models/threes.py\<close>.
  A numpy float is an exact real number or one of the three special values; rounding and
  overflow of the 64-bit format are not modelled, the special values are, since the
  program produces them (a missing label in an aligned division gives \<open>NaN\<close>) and
  the generator's argument checks react to them.
\<close>

datatype npfloat = Fin real | PInf | NInf | NaN

datatype error = ValueError

fun fneg :: "npfloat \<Rightarrow> npfloat" where
  "fneg (Fin x) = Fin (- x)"
| "fneg PInf = NInf"
| "fneg NInf = PInf"
| "fneg NaN = NaN"

fun fadd :: "npfloat \<Rightarrow> npfloat \<Rightarrow> npfloat" where
  "fadd (Fin x) (Fin y) = Fin (x + y)"
| "fadd NaN _ = NaN"
| "fadd _ NaN = NaN"
| "fadd PInf NInf = NaN"
| "fadd NInf PInf = NaN"
| "fadd PInf _ = PInf"
| "fadd _ PInf = PInf"
| "fadd NInf _ = NInf"
| "fadd _ NInf = NInf"

definition fsub :: "npfloat \<Rightarrow> npfloat \<Rightarrow> npfloat" where
  "fsub a b = fadd a (fneg b)"

definition inf_of_sign :: "real \<Rightarrow> npfloat" where
  "inf_of_sign x = (if x = 0 then NaN else if 0 < x then PInf else NInf)"

fun fmul :: "npfloat \<Rightarrow> npfloat \<Rightarrow> npfloat" where
  "fmul (Fin x) (Fin y) = Fin (x * y)"
| "fmul NaN _ = NaN"
| "fmul _ NaN = NaN"
| "fmul (Fin x) PInf = inf_of_sign x"
| "fmul (Fin x) NInf = inf_of_sign (- x)"
| "fmul PInf (Fin y) = inf_of_sign y"
| "fmul NInf (Fin y) = inf_of_sign (- y)"
| "fmul PInf PInf = PInf"
| "fmul NInf NInf = PInf"
| "fmul PInf NInf = NInf"
| "fmul NInf PInf = NInf"

text \<open>Division as numpy does it with the floating-point errors ignored: a nonzero
  value over zero is an infinity, zero over zero is \<open>NaN\<close>.\<close>

fun fdiv :: "npfloat \<Rightarrow> npfloat \<Rightarrow> npfloat" where
  "fdiv (Fin x) (Fin y) = (if y = 0 then inf_of_sign x else Fin (x / y))"
| "fdiv NaN _ = NaN"
| "fdiv _ NaN = NaN"
| "fdiv (Fin x) PInf = Fin 0"
| "fdiv (Fin x) NInf = Fin 0"
| "fdiv PInf (Fin y) = (if 0 \<le> y then PInf else NInf)"
| "fdiv NInf (Fin y) = (if 0 \<le> y then NInf else PInf)"
| "fdiv PInf _ = NaN"
| "fdiv NInf _ = NaN"

fun fsqrt :: "npfloat \<Rightarrow> npfloat" where
  "fsqrt (Fin x) = (if x < 0 then NaN else Fin (sqrt x))"
| "fsqrt PInf = PInf"
| "fsqrt NInf = NaN"
| "fsqrt NaN = NaN"

definition fsum :: "npfloat list \<Rightarrow> npfloat" where
  "fsum xs = foldl fadd (Fin 0) xs"

text \<open>\<^verbatim>\<open>np.mean\<close> of a float sequence; the mean of an empty one is \<open>NaN\<close>
  (numpy warns and returns it).\<close>

definition np_mean :: "npfloat list \<Rightarrow> npfloat" where
  "np_mean xs = (if xs = [] then NaN else fdiv (fsum xs) (Fin (real (length xs))))"

text \<open>\<^verbatim>\<open>np.std\<close>: the square root of the mean squared deviation from the mean.\<close>

definition np_std :: "npfloat list \<Rightarrow> npfloat" where
  "np_std xs =
     (let m = np_mean xs
      in fsqrt (np_mean (map (\<lambda>x. fmul (fsub x m) (fsub x m)) xs)))"

text \<open>\<^verbatim>\<open>ndarray.mean()\<close> of an integer array.\<close>

definition int_mean :: "int list \<Rightarrow> npfloat" where
  "int_mean xs = np_mean (map (\<lambda>x. Fin (real_of_int x)) xs)"

section \<open>The random generator and the fitted mixture model\<close>

text \<open>
  The program draws from numpy's process-wide generator. Its state is threaded
  explicitly: \<open>'g\<close> is the state, and the record holds the raw draws of the generator,
  each returning its value and the next state. The argument checks that numpy performs
  before a draw are part of the model (\<open>np_normal\<close>, \<open>np_poisson\<close>,
  \<open>np_binomial\<close>, \<open>np_choice\<close> below); what the draws return is a parameter.
\<close>

record 'g rng =
  gauss :: "'g \<Rightarrow> real \<times> 'g"
  poisson :: "real \<Rightarrow> 'g \<Rightarrow> nat \<times> 'g"
  binomial :: "nat \<Rightarrow> real \<Rightarrow> 'g \<Rightarrow> int \<times> 'g"
  randint :: "nat \<Rightarrow> nat \<Rightarrow> 'g \<Rightarrow> nat list \<times> 'g"

text \<open>The documented ranges of the draws: \<^verbatim>\<open>binomial(n, p)\<close> is a count of
  successes among \<open>n\<close> trials, \<^verbatim>\<open>randint(0, high, size)\<close> is \<open>size\<close> indices
  below \<open>high\<close>.\<close>

definition rng_ok :: "'g rng \<Rightarrow> bool" where
  "rng_ok R \<longleftrightarrow>
     (\<forall>n p g. 0 \<le> fst (binomial R n p g) \<and> fst (binomial R n p g) \<le> int n) \<and>
     (\<forall>high sz g. 0 < high \<longrightarrow>
        length (fst (randint R high sz g)) = sz \<and>
        (\<forall>i \<in> set (fst (randint R high sz g)). i < high))"

type_synonym point = "real \<times> real"

datatype covariance_type = Spherical | Tied | Diag | Full

text \<open>
  The fitted \<^verbatim>\<open>GaussianMixture\<close>. Fitting is scikit-learn's; the record holds what
  the program reads from the fitted object. \<^verbatim>\<open>model.sample(n)[0]\<close> is a function of
  \<open>n\<close> alone: the model is built with \<^verbatim>\<open>random_state=0\<close>, and \<^verbatim>\<open>sample\<close>
  seeds a fresh generator from it at every call, leaving numpy's own generator untouched.
\<close>

record gmm =
  n_components :: nat
  covariance :: covariance_type
  predict :: "point \<Rightarrow> nat"
  predict_proba :: "point \<Rightarrow> real list"
  sample :: "nat \<Rightarrow> point list"

text \<open>The shapes scikit-learn documents: \<^verbatim>\<open>sample(n)[0]\<close> has \<open>n\<close> rows,
  \<^verbatim>\<open>predict_proba\<close> has one column per component.\<close>

definition gmm_ok :: "gmm \<Rightarrow> bool" where
  "gmm_ok M \<longleftrightarrow>
     (\<forall>n. length (sample M n) = n) \<and>
     (\<forall>x. length (predict_proba M x) = n_components M)"

section \<open>The game simulator\<close>

text \<open>A pandas \<^verbatim>\<open>Series\<close> of floats: the index labels with their values, in order.\<close>

type_synonym series = "(nat \<times> npfloat) list"

text \<open>\<^verbatim>\<open>np.random.normal(loc, scale)\<close>: a negative scale raises, otherwise the value is
  \<open>loc + scale * z\<close> for a standard normal draw \<open>z\<close>.\<close>

definition np_normal :: "'g rng \<Rightarrow> npfloat \<Rightarrow> npfloat \<Rightarrow> 'g \<Rightarrow> error + (npfloat \<times> 'g)" where
  "np_normal R loc scale g =
     (if (case scale of Fin s \<Rightarrow> s < 0 | NInf \<Rightarrow> True | _ \<Rightarrow> False) then Inl ValueError
      else (case gauss R g of (z, g1) \<Rightarrow> Inr (fadd loc (fmul scale (Fin z)), g1)))"

text \<open>The largest rate \<^verbatim>\<open>np.random.poisson\<close> accepts.\<close>

definition POISSON_LAM_MAX :: real where
  "POISSON_LAM_MAX = 9223372006484770816"

text \<open>\<^verbatim>\<open>np.random.poisson(lam)\<close>: a rate that is negative, \<open>NaN\<close> or too large raises.\<close>

definition np_poisson :: "'g rng \<Rightarrow> npfloat \<Rightarrow> 'g \<Rightarrow> error + (nat \<times> 'g)" where
  "np_poisson R lam g =
     (case lam of
        Fin l \<Rightarrow> (if l < 0 \<or> POISSON_LAM_MAX < l then Inl ValueError else Inr (poisson R l g))
      | _ \<Rightarrow> Inl ValueError)"

text \<open>\<^verbatim>\<open>np.random.binomial(n, p)\<close>: a probability outside \<open>[0, 1]\<close>, or \<open>NaN\<close>,
  raises. The program adds no check or clamp of its own before the call.\<close>

definition np_binomial :: "'g rng \<Rightarrow> nat \<Rightarrow> npfloat \<Rightarrow> 'g \<Rightarrow> error + (int \<times> 'g)" where
  "np_binomial R n p g =
     (case p of
        Fin x \<Rightarrow> (if x < 0 \<or> 1 < x then Inl ValueError else Inr (binomial R n x g))
      | _ \<Rightarrow> Inl ValueError)"

text \<open>\<^verbatim>\<open>fg_percent_by_cluster.values * def_adjustment\<close>: an array times a Series. The
  product is taken by position with numpy's broadcasting (an array of length one is
  stretched) and carries the Series' index; other lengths raise.\<close>

definition values_mul_series :: "npfloat list \<Rightarrow> series \<Rightarrow> error + series" where
  "values_mul_series vs s =
     (if length vs = length s then Inr (map (\<lambda>(v, (i, x)). (i, fmul x v)) (zip vs s))
      else if length vs = 1 then Inr (map (\<lambda>(i, x). (i, fmul x (hd vs))) s)
      else Inl ValueError)"

definition dotf :: "npfloat list \<Rightarrow> real list \<Rightarrow> npfloat" where
  "dotf w row = fsum (map (\<lambda>(a, b). fmul a (Fin b)) (zip w row))"

text \<open>\<^verbatim>\<open>np.dot(w, P.T)\<close> for a vector \<open>w\<close> and the matrix \<open>P\<close> of \<open>k\<close> columns given by
  its rows: one dot product per row; a vector whose length is not \<open>k\<close> raises.\<close>

definition np_dot :: "npfloat list \<Rightarrow> nat \<Rightarrow> real list list \<Rightarrow> error + npfloat list" where
  "np_dot w k P = (if length w = k then Inr (map (dotf w) P) else Inl ValueError)"

definition weighted_fg_percent ::
    "npfloat list \<Rightarrow> series \<Rightarrow> gmm \<Rightarrow> point list \<Rightarrow> error + npfloat list" where
  "weighted_fg_percent fg_percent def_adjustment M sampled_shot_locs =
     (case values_mul_series fg_percent def_adjustment of
        Inl e \<Rightarrow> Inl e
      | Inr w \<Rightarrow> np_dot (map snd w) (n_components M) (map (predict_proba M) sampled_shot_locs))"

fun binomial_each :: "'g rng \<Rightarrow> npfloat list \<Rightarrow> 'g \<Rightarrow> error + (int list \<times> 'g)" where
  "binomial_each R [] g = Inr ([], g)"
| "binomial_each R (p # ps) g =
     (case np_binomial R 1 p g of
        Inl e \<Rightarrow> Inl e
      | Inr (x, g1) \<Rightarrow>
          (case binomial_each R ps g1 of
             Inl e \<Rightarrow> Inl e
           | Inr (xs, g2) \<Rightarrow> Inr (x # xs, g2)))"

text \<open>\<^verbatim>\<open>np.vectorize(np.random.binomial)(1, ps)\<close>. Without declared output types,
  \<^verbatim>\<open>np.vectorize\<close> refuses an empty input and otherwise first calls the function once
  on the first element to learn the output type, discards that value, and then calls it
  on every element in order.\<close>

definition vectorize_binomial :: "'g rng \<Rightarrow> npfloat list \<Rightarrow> 'g \<Rightarrow> error + (int list \<times> 'g)" where
  "vectorize_binomial R ps g =
     (case ps of
        [] \<Rightarrow> Inl ValueError
      | p0 # _ \<Rightarrow>
          (case np_binomial R 1 p0 g of
             Inl e \<Rightarrow> Inl e
           | Inr (_, g1) \<Rightarrow> binomial_each R ps g1))"

text \<open>The attempt count of one game: \<^verbatim>\<open>np.random.poisson(np.random.normal(mean, std))\<close>.\<close>

definition draw_fga :: "'g rng \<Rightarrow> npfloat \<Rightarrow> npfloat \<Rightarrow> 'g \<Rightarrow> error + (nat \<times> 'g)" where
  "draw_fga R est_mean est_std g =
     (case np_normal R est_mean est_std g of
        Inl e \<Rightarrow> Inl e
      | Inr (lam, g1) \<Rightarrow> np_poisson R lam g1)"

text \<open>One pass of the loop body: the made count appended for the game and the
  generator state afterwards.\<close>

definition simulate_game ::
    "'g rng \<Rightarrow> gmm \<Rightarrow> npfloat list \<Rightarrow> series \<Rightarrow> npfloat \<Rightarrow> npfloat \<Rightarrow> 'g \<Rightarrow> error + (int \<times> 'g)" where
  "simulate_game R M fg_percent def_adjustment est_mean est_std g =
     (case draw_fga R est_mean est_std g of
        Inl e \<Rightarrow> Inl e
      | Inr (fga_i, g2) \<Rightarrow>
          if fga_i = 0 then Inr (0, g2)
          else
            (case weighted_fg_percent fg_percent def_adjustment M (sample M fga_i) of
               Inl e \<Rightarrow> Inl e
             | Inr ps \<Rightarrow>
                 (case vectorize_binomial R ps g2 of
                    Inl e \<Rightarrow> Inl e
                  | Inr (fgm_i, g3) \<Rightarrow> Inr (sum_list fgm_i, g3))))"

text \<open>The loop over the simulated games; \<open>fg3m_s\<close> is built in game order.\<close>

fun simulate ::
    "'g rng \<Rightarrow> gmm \<Rightarrow> npfloat list \<Rightarrow> series \<Rightarrow> npfloat \<Rightarrow> npfloat \<Rightarrow> nat \<Rightarrow> 'g
      \<Rightarrow> error + (int list \<times> 'g)" where
  "simulate R M fg_percent def_adjustment est_mean est_std 0 g = Inr ([], g)"
| "simulate R M fg_percent def_adjustment est_mean est_std (Suc n) g =
     (case simulate_game R M fg_percent def_adjustment est_mean est_std g of
        Inl e \<Rightarrow> Inl e
      | Inr (fg3m, g1) \<Rightarrow>
          (case simulate R M fg_percent def_adjustment est_mean est_std n g1 of
             Inl e \<Rightarrow> Inl e
           | Inr (fg3m_s, g2) \<Rightarrow> Inr (fg3m # fg3m_s, g2)))"

section \<open>Shot records and the per-zone make rates\<close>

text \<open>A row of the player's shot chart as the data provider returns it (a cell may be
  missing), and the same row after \<^verbatim>\<open>dropna\<close> and the integer cast of the made flag.
  Game identifiers are fixed-width digit strings; they are kept as the numbers they spell,
  which order the same way.\<close>

record raw_shot =
  raw_GAME_ID :: "nat option"
  raw_LOC_X :: "real option"
  raw_LOC_Y :: "real option"
  raw_SHOT_MADE_FLAG :: "int option"
  raw_SHOT_ATTEMPTED_FLAG :: "int option"

record shot =
  GAME_ID :: nat
  LOC_X :: real
  LOC_Y :: real
  SHOT_MADE_FLAG :: int
  SHOT_ATTEMPTED_FLAG :: int

definition dropna :: "raw_shot list \<Rightarrow> shot list" where
  "dropna rows =
     concat (map (\<lambda>r.
        case (raw_GAME_ID r, raw_LOC_X r, raw_LOC_Y r, raw_SHOT_MADE_FLAG r,
              raw_SHOT_ATTEMPTED_FLAG r) of
          (Some gid, Some x, Some y, Some m, Some a) \<Rightarrow>
             [\<lparr>GAME_ID = gid, LOC_X = x, LOC_Y = y, SHOT_MADE_FLAG = m,
               SHOT_ATTEMPTED_FLAG = a\<rparr>]
        | _ \<Rightarrow> []) rows)"

text \<open>A row of the league table built by \<^verbatim>\<open>get_league_shot_loc_data\<close>; the defending
  team may be missing.\<close>

record league_shot =
  DEF :: "string option"
  league_LOC_X :: real
  league_LOC_Y :: real
  league_SHOT_MADE_FLAG :: int

definition threes_train_xy :: "shot list \<Rightarrow> point list" where
  "threes_train_xy threes = map (\<lambda>s. (LOC_X s, LOC_Y s)) threes"

definition league_test_xy :: "league_shot list \<Rightarrow> point list" where
  "league_test_xy league_df = map (\<lambda>s. (league_LOC_X s, league_LOC_Y s)) league_df"

text \<open>\<^verbatim>\<open>threes.groupby('GAME_ID')['SHOT_ATTEMPTED_FLAG'].count().values\<close>: the number of
  rows of each game, in the order of the sorted game identifiers.\<close>

definition fga_per_game_data :: "shot list \<Rightarrow> int list" where
  "fga_per_game_data threes =
     map (\<lambda>gid. int (length (filter (\<lambda>s. GAME_ID s = gid) threes)))
       (sort (remdups (map GAME_ID threes)))"

text \<open>\<^verbatim>\<open>Series.value_counts(normalize=True)\<close> within one group: one row per value that
  occurs, holding its share of the group, sorted by decreasing share; rows of equal share
  stay in increasing order of the value.\<close>

definition value_counts_normalize :: "int list \<Rightarrow> (int \<times> real) list" where
  "value_counts_normalize vals =
     sort_key (\<lambda>(v, p). - p)
       (map (\<lambda>v. (v, real (count_list vals v) / real (length vals))) (sort (remdups vals)))"

text \<open>\<^verbatim>\<open>df.groupby('cluster')[flag].value_counts(normalize=True)\<close> on rows given as
  (cluster, flag): the groups in increasing cluster order, each with its rows. Only
  (cluster, value) pairs that occur in the data have a row.\<close>

definition groupby_value_counts :: "(nat \<times> int) list \<Rightarrow> (nat \<times> int \<times> real) list" where
  "groupby_value_counts rows =
     concat (map (\<lambda>c. map (\<lambda>(v, p). (c, v, p))
                        (value_counts_normalize (map snd (filter (\<lambda>r. fst r = c) rows))))
                 (sort (remdups (map fst rows))))"

text \<open>The rest of each rate statement: the frame gets a fresh row index \<open>0, 1, ...\<close>
  (\<^verbatim>\<open>reset_index\<close>), the rows whose flag is 1 are kept, and their \<^verbatim>\<open>fg_percent\<close>
  column is the result: a Series whose labels are the row numbers of the kept rows.\<close>

definition made_rows :: "(nat \<times> int \<times> real) list \<Rightarrow> series" where
  "made_rows counts =
     map (\<lambda>(i, c, v, p). (i, Fin p)) (filter (\<lambda>(i, c, v, p). v = 1) (enumerate 0 counts))"

definition fg_percent_by_cluster :: "shot list \<Rightarrow> nat list \<Rightarrow> series" where
  "fg_percent_by_cluster threes model_labels =
     made_rows (groupby_value_counts (zip model_labels (map SHOT_MADE_FLAG threes)))"

definition league_fg_percent_by_cluster :: "league_shot list \<Rightarrow> nat list \<Rightarrow> series" where
  "league_fg_percent_by_cluster league_df league_model_labels =
     made_rows (groupby_value_counts
       (zip league_model_labels (map league_SHOT_MADE_FLAG league_df)))"

text \<open>The opponent's rows are selected after the labels are attached.\<close>

definition opponent_fg_percent_by_cluster ::
    "league_shot list \<Rightarrow> nat list \<Rightarrow> string \<Rightarrow> series" where
  "opponent_fg_percent_by_cluster league_df league_model_labels opponent =
     made_rows (groupby_value_counts
       (map (\<lambda>(c, s). (c, league_SHOT_MADE_FLAG s))
          (filter (\<lambda>(c, s). DEF s = Some opponent) (zip league_model_labels league_df))))"

text \<open>Division of two Series: pandas aligns them on their index labels. The result has
  the sorted union of the labels, with the quotient where both sides have the label and
  \<open>NaN\<close> elsewhere. (Both operands here have increasing, distinct labels.)\<close>

definition series_div :: "series \<Rightarrow> series \<Rightarrow> series" where
  "series_div a b =
     map (\<lambda>i. (i, case (map_of a i, map_of b i) of
                     (Some x, Some y) \<Rightarrow> fdiv x y
                   | _ \<Rightarrow> NaN))
       (sort (remdups (map fst a @ map fst b)))"

definition def_adjustment :: "league_shot list \<Rightarrow> nat list \<Rightarrow> string \<Rightarrow> series" where
  "def_adjustment league_df league_model_labels opponent =
     series_div (opponent_fg_percent_by_cluster league_df league_model_labels opponent)
                (league_fg_percent_by_cluster league_df league_model_labels)"

section \<open>The attempt-volume estimate\<close>

text \<open>\<^verbatim>\<open>np.random.choice(a, size, replace=True)\<close>: an empty population raises unless
  nothing is drawn; otherwise \<open>sz\<close> indices are drawn and looked up.\<close>

definition np_choice :: "'g rng \<Rightarrow> int list \<Rightarrow> nat \<Rightarrow> 'g \<Rightarrow> error + (int list \<times> 'g)" where
  "np_choice R a sz g =
     (if a = [] \<and> sz \<noteq> 0 then Inl ValueError
      else if sz = 0 then Inr ([], g)
      else (case randint R (length a) sz g of (idx, g1) \<Rightarrow> Inr (map (\<lambda>i. a ! i) idx, g1)))"

text \<open>The list comprehension of resample means, one per bootstrap sample.\<close>

fun fga_per_game_est :: "'g rng \<Rightarrow> int list \<Rightarrow> nat \<Rightarrow> 'g \<Rightarrow> error + (npfloat list \<times> 'g)" where
  "fga_per_game_est R d 0 g = Inr ([], g)"
| "fga_per_game_est R d (Suc n) g =
     (case np_choice R d (length d) g of
        Inl e \<Rightarrow> Inl e
      | Inr (resample, g1) \<Rightarrow>
          (case fga_per_game_est R d n g1 of
             Inl e \<Rightarrow> Inl e
           | Inr (ms, g2) \<Rightarrow> Inr (int_mean resample # ms, g2)))"

text \<open>\<open>fga_per_game_est_mean\<close> and \<open>fga_per_game_est_std\<close>, with the generator state.\<close>

definition fga_per_game_est_mean_std ::
    "'g rng \<Rightarrow> int list \<Rightarrow> nat \<Rightarrow> 'g \<Rightarrow> error + (npfloat \<times> npfloat \<times> 'g)" where
  "fga_per_game_est_mean_std R d bootstrap_samples g =
     (case fga_per_game_est R d bootstrap_samples g of
        Inl e \<Rightarrow> Inl e
      | Inr (ms, g1) \<Rightarrow> Inr (np_mean ms, np_std ms, g1))"

section \<open>Model selection and the whole run\<close>

text \<open>A candidate of the grid search: a covariance family and a number of components.\<close>

type_synonym candidate = "covariance_type \<times> nat"

text \<open>\<^verbatim>\<open>param_grid\<close>, enumerated as scikit-learn's \<^verbatim>\<open>ParameterGrid\<close> does: the keys
  in sorted order, so the covariance family varies slowest.\<close>

definition param_grid :: "candidate list" where
  "param_grid =
     concat (map (\<lambda>covariance_type. map (\<lambda>n. (covariance_type, n)) [3..<15])
                 [Spherical, Tied, Diag, Full])"

text \<open>The scorer \<^verbatim>\<open>lambda estimator, x: -estimator.bic(x)\<close> averaged over the folds.
  Fitting a candidate on the training part of each fold and computing its BIC on the
  held-out part is scikit-learn's work: \<open>cv_bic\<close> stands for it, giving the BIC values of
  the folds and the generator state afterwards (a default \<^verbatim>\<open>GMM()\<close> draws its
  initialisation from numpy's generator). The scores are taken to be numbers: a candidate
  whose fit fails is scored \<open>NaN\<close> by scikit-learn and ranked last, which is not
  modelled.\<close>

definition mean_test_score :: "real list \<Rightarrow> real" where
  "mean_test_score bics = sum_list (map (\<lambda>b. - b) bics) / real (length bics)"

fun cv_results ::
    "(candidate \<Rightarrow> point list \<Rightarrow> 'g \<Rightarrow> real list \<times> 'g) \<Rightarrow> candidate list \<Rightarrow> point list \<Rightarrow> 'g
      \<Rightarrow> (candidate \<times> real) list \<times> 'g" where
  "cv_results cv_bic [] xy g = ([], g)"
| "cv_results cv_bic (c # cs) xy g =
     (case cv_bic c xy g of
        (bics, g1) \<Rightarrow>
          (case cv_results cv_bic cs xy g1 of
             (rs, g2) \<Rightarrow> ((c, mean_test_score bics) # rs, g2)))"

text \<open>\<^verbatim>\<open>best_params_\<close>: the first candidate of the best rank, that is, of the
  highest mean score.\<close>

definition best_params :: "(candidate \<times> real) list \<Rightarrow> candidate" where
  "best_params rs =
     fst (fold (\<lambda>r best. if snd best < snd r then r else best) (tl rs) (hd rs))"

text \<open>\<^verbatim>\<open>grid_search.fit(threes_train_xy)\<close> with the default five folds, which need
  five samples.\<close>

definition grid_search_fit ::
    "(candidate \<Rightarrow> point list \<Rightarrow> 'g \<Rightarrow> real list \<times> 'g) \<Rightarrow> point list \<Rightarrow> 'g
      \<Rightarrow> error + (candidate \<times> 'g)" where
  "grid_search_fit cv_bic xy g =
     (if length xy < 5 then Inl ValueError
      else (case cv_results cv_bic param_grid xy g of (rs, g1) \<Rightarrow> Inr (best_params rs, g1)))"

text \<open>\<^verbatim>\<open>GMM(n_components=..., covariance_type=..., random_state=0).fit(xy)\<close>. The
  expectation-maximisation fit is scikit-learn's: \<open>em\<close> stands for it, and may raise
  (an ill-defined covariance, say). The fit refuses fewer samples than components; the
  fitted object keeps the two constructor arguments.\<close>

definition GMM_fit ::
    "(covariance_type \<Rightarrow> nat \<Rightarrow> point list \<Rightarrow> error + gmm) \<Rightarrow> covariance_type \<Rightarrow> nat
      \<Rightarrow> point list \<Rightarrow> error + gmm" where
  "GMM_fit em covariance_type n xy =
     (if length xy < n then Inl ValueError
      else (case em covariance_type n xy of
              Inl e \<Rightarrow> Inl e
            | Inr fitted \<Rightarrow> Inr (fitted\<lparr>n_components := n, covariance := covariance_type\<rparr>)))"

text \<open>The body of \<^verbatim>\<open>run_threes_model\<close> after the two frames are fetched, up to the
  returned array (the plot is left out). The \<^verbatim>\<open>n_components\<close> argument of the method
  is overwritten by the grid search before it is read, so it is no parameter here. The two
  counts are Python integers; \<^verbatim>\<open>range\<close> of a negative count is empty.\<close>

definition run_threes_model ::
    "'g rng \<Rightarrow> (candidate \<Rightarrow> point list \<Rightarrow> 'g \<Rightarrow> real list \<times> 'g)
      \<Rightarrow> (covariance_type \<Rightarrow> nat \<Rightarrow> point list \<Rightarrow> error + gmm)
      \<Rightarrow> raw_shot list \<Rightarrow> league_shot list \<Rightarrow> string \<Rightarrow> int \<Rightarrow> int \<Rightarrow> 'g
      \<Rightarrow> error + (int list \<times> 'g)" where
  "run_threes_model R cv_bic em player_df league_df opponent bootstrap_samples
       n_simulated_games g =
     (let threes = dropna player_df;
          xy = threes_train_xy threes
      in case grid_search_fit cv_bic xy g of
           Inl e \<Rightarrow> Inl e
         | Inr ((covariance_type, n), g1) \<Rightarrow>
             (case GMM_fit em covariance_type n xy of
                Inl e \<Rightarrow> Inl e
              | Inr M \<Rightarrow>
                  (let model_labels = map (predict M) xy;
                       league_model_labels = map (predict M) (league_test_xy league_df);
                       fg = fg_percent_by_cluster threes model_labels;
                       adj = def_adjustment league_df league_model_labels opponent
                   in case fga_per_game_est_mean_std R (fga_per_game_data threes)
                             (nat bootstrap_samples) g1 of
                        Inl e \<Rightarrow> Inl e
                      | Inr (est_mean, est_std, g2) \<Rightarrow>
                          simulate R M (map snd fg) adj est_mean est_std
                            (nat n_simulated_games) g2)))"

section \<open>The quantities the properties are stated against\<close>

text \<open>The definitions of this section are not part of the program: they say, in the
  words of its description, what the program is compared with.\<close>

text \<open>The player's rate of each zone times the adjustment of the same zone, entry by
  entry: the vector the effective make probability is stated against. (The program itself
  forms the product in \<open>values_mul_series\<close>.)\<close>

definition adjusted_rates :: "npfloat list \<Rightarrow> series \<Rightarrow> npfloat list" where
  "adjusted_rates fg adj = map (\<lambda>(rate, (i, a)). fmul a rate) (zip fg adj)"

text \<open>The draws of a game are accepted: the attempt draw returns a count, and if the
  count is positive the effective probabilities are computed and are numbers in
  \<open>[0, 1]\<close>.\<close>

definition game_accepted ::
    "'g rng \<Rightarrow> gmm \<Rightarrow> npfloat list \<Rightarrow> series \<Rightarrow> npfloat \<Rightarrow> npfloat \<Rightarrow> 'g \<Rightarrow> bool" where
  "game_accepted R M fg adj est_mean est_std g \<longleftrightarrow>
     (\<exists>k g2. draw_fga R est_mean est_std g = Inr (k, g2) \<and>
        (k = 0 \<or>
         (\<exists>ps. weighted_fg_percent fg adj M (sample M k) = Inr ps \<and>
            (\<forall>p \<in> set ps. \<exists>x. p = Fin x \<and> 0 \<le> x \<and> x \<le> 1))))"

text \<open>One Bernoulli outcome for each probability of a list, drawn in order from the
  advancing generator: one outcome per shot.\<close>

fun bernoulli_draws :: "'g rng \<Rightarrow> real list \<Rightarrow> 'g \<Rightarrow> int list \<times> 'g" where
  "bernoulli_draws R [] g = ([], g)"
| "bernoulli_draws R (x # xs) g =
     (case binomial R 1 x g of
        (y, g1) \<Rightarrow> (case bernoulli_draws R xs g1 of (ys, g2) \<Rightarrow> (y # ys, g2)))"

text \<open>The bootstrap in the words of its description. A resample is a draw, with
  replacement, of as many indices into the history as the history is long; resample
  \<open>k\<close> is drawn from the generator as the \<open>k\<close> resamples before it left it; the
  estimate is the mean and the standard deviation of the resamples' means.\<close>

definition resample_indices :: "'g rng \<Rightarrow> int list \<Rightarrow> 'g \<Rightarrow> nat list" where
  "resample_indices R d g = fst (randint R (length d) (length d) g)"

definition resample_next :: "'g rng \<Rightarrow> int list \<Rightarrow> 'g \<Rightarrow> 'g" where
  "resample_next R d g = snd (randint R (length d) (length d) g)"

definition resample_mean :: "'g rng \<Rightarrow> int list \<Rightarrow> 'g \<Rightarrow> real" where
  "resample_mean R d g =
     (\<Sum>i\<leftarrow>resample_indices R d g. real_of_int (d ! i)) / real (length d)"

definition resample_means :: "'g rng \<Rightarrow> int list \<Rightarrow> nat \<Rightarrow> 'g \<Rightarrow> real list" where
  "resample_means R d samples g =
     map (\<lambda>k. resample_mean R d ((resample_next R d ^^ k) g)) [0..<samples]"

definition mean_of :: "real list \<Rightarrow> real" where
  "mean_of xs = sum_list xs / real (length xs)"

definition std_of :: "real list \<Rightarrow> real" where
  "std_of xs = sqrt (mean_of (map (\<lambda>x. (x - mean_of xs) ^ 2) xs))"



section \<open>Concrete inputs\<close>

text \<open>Small generators, a three-zone model and shot tables on which the definitions
  are evaluated below. The generator state is a counter.\<close>

definition R0 :: "nat rng" where
  "R0 = \<lparr>gauss = (\<lambda>g. (0, Suc g)),
         poisson = (\<lambda>l g. (nat \<lfloor>l\<rfloor>, Suc g)),
         binomial = (\<lambda>n p g. (if even g then int n else 0, Suc g)),
         randint = (\<lambda>high sz g. (replicate sz (g mod high), Suc g))\<rparr>"

text \<open>The same generator with a standard normal draw of \<open>-3\<close>.\<close>

definition R1 :: "nat rng" where
  "R1 = R0\<lparr>gauss := (\<lambda>g. (- 3, Suc g))\<rparr>"

text \<open>Three zones split by the sign of the x coordinate; a point on the line
  \<open>x = 0\<close> belongs half to zone 0 and half to zone 1. Every sampled shot is at
  \<open>(-1, 0)\<close>, in zone 0.\<close>

definition M0 :: gmm where
  "M0 = \<lparr>n_components = 3, covariance = Full,
         predict = (\<lambda>(x, y). if x < 0 then 0 else if x = 0 then 1 else 2),
         predict_proba = (\<lambda>(x, y). if x < 0 then [1, 0, 0]
                                    else if x = 0 then [1 / 2, 1 / 2, 0] else [0, 0, 1]),
         sample = (\<lambda>n. replicate n (- 1, 0))\<rparr>"

definition mk_shot :: "nat \<Rightarrow> real \<Rightarrow> int \<Rightarrow> shot" where
  "mk_shot gid x made =
     \<lparr>GAME_ID = gid, LOC_X = x, LOC_Y = 0, SHOT_MADE_FLAG = made, SHOT_ATTEMPTED_FLAG = 1\<rparr>"

definition mk_league_shot :: "string \<Rightarrow> real \<Rightarrow> int \<Rightarrow> league_shot" where
  "mk_league_shot d x made =
     \<lparr>DEF = Some d, league_LOC_X = x, league_LOC_Y = 0, league_SHOT_MADE_FLAG = made\<rparr>"

text \<open>A player with one make in three attempts in zone 0, a single miss in zone 1 and
  one make in three attempts in zone 2.\<close>

definition threes_ex :: "shot list" where
  "threes_ex =
     [mk_shot 1 (- 1) 1, mk_shot 1 (- 1) 0, mk_shot 1 (- 1) 0,
      mk_shot 2 0 0,
      mk_shot 2 1 1, mk_shot 2 1 0, mk_shot 3 1 0]"

text \<open>A league table: against BOS one miss in zone 0 and one make in three attempts in
  zone 1; against NYK one make in two attempts in zone 0 and one make in three attempts in
  zone 1. League-wide that is one make in three attempts in zone 0 and two makes in six
  attempts in zone 1.\<close>

definition league_ex :: "league_shot list" where
  "league_ex =
     [mk_league_shot ''BOS'' (- 1) 0,
      mk_league_shot ''BOS'' 0 1, mk_league_shot ''BOS'' 0 0, mk_league_shot ''BOS'' 0 0,
      mk_league_shot ''NYK'' (- 1) 1, mk_league_shot ''NYK'' (- 1) 0,
      mk_league_shot ''NYK'' 0 1, mk_league_shot ''NYK'' 0 0, mk_league_shot ''NYK'' 0 0]"




section \<open>Properties of the game simulator\<close>

subsection \<open>The Bernoulli draws and the shape of a game\<close>

lemma binomial_each_length:
  "binomial_each R ps g = Inr (xs, g') \<Longrightarrow> length xs = length ps"
  by (induction ps arbitrary: g xs g') (auto split: sum.splits prod.splits)

lemma np_binomial_range:
  assumes "rng_ok R" and "np_binomial R n p g = Inr (x, g')"
  shows "0 \<le> x \<and> x \<le> int n"
proof -
  from assms(2) obtain q where "binomial R n q g = (x, g')"
    by (auto simp: np_binomial_def split: npfloat.splits if_splits)
  then have "x = fst (binomial R n q g)" by simp
  with assms(1) show ?thesis by (simp add: rng_ok_def)
qed

lemma np_binomial_accepts:
  "np_binomial R n p g = Inr r \<Longrightarrow> \<exists>x. p = Fin x \<and> 0 \<le> x \<and> x \<le> 1"
  by (auto simp: np_binomial_def split: npfloat.splits if_splits)

lemma binomial_each_range:
  assumes "rng_ok R"
  shows "binomial_each R ps g = Inr (xs, g') \<Longrightarrow> \<forall>x \<in> set xs. 0 \<le> x \<and> x \<le> 1"
proof (induction ps arbitrary: g xs g')
  case Nil
  then show ?case by simp
next
  case (Cons p ps)
  from Cons.prems obtain x g1 ys where
    a: "np_binomial R 1 p g = Inr (x, g1)" and b: "binomial_each R ps g1 = Inr (ys, g')"
    and c: "xs = x # ys"
    by (auto split: sum.splits prod.splits)
  from np_binomial_range[OF assms a] have "0 \<le> x \<and> x \<le> 1" by simp
  with Cons.IH[OF b] c show ?case by simp
qed

lemma binomial_each_accepts:
  "binomial_each R ps g = Inr r \<Longrightarrow> \<forall>p \<in> set ps. \<exists>x. p = Fin x \<and> 0 \<le> x \<and> x \<le> 1"
proof (induction ps arbitrary: g r)
  case Nil
  then show ?case by simp
next
  case (Cons p ps)
  from Cons.prems obtain r1 g1 r2 where
    a: "np_binomial R 1 p g = Inr (r1, g1)" and b: "binomial_each R ps g1 = Inr r2"
    by (auto split: sum.splits prod.splits)
  from np_binomial_accepts[OF a] Cons.IH[OF b] show ?case by simp
qed

lemma binomial_each_succeeds:
  "\<forall>p \<in> set ps. \<exists>x. p = Fin x \<and> 0 \<le> x \<and> x \<le> 1 \<Longrightarrow> \<exists>xs g'. binomial_each R ps g = Inr (xs, g')"
proof (induction ps arbitrary: g)
  case Nil
  then show ?case by simp
next
  case (Cons p ps)
  then obtain x where p: "p = Fin x" "0 \<le> x" "x \<le> 1" by auto
  obtain y g1 where y: "binomial R 1 x g = (y, g1)" by (cases "binomial R 1 x g")
  from Cons obtain xs g' where "binomial_each R ps g1 = Inr (xs, g')" by fastforce
  with p y show ?case by (simp add: np_binomial_def)
qed

lemma vectorize_binomial_accepts:
  "vectorize_binomial R ps g = Inr r \<Longrightarrow> \<forall>p \<in> set ps. \<exists>x. p = Fin x \<and> 0 \<le> x \<and> x \<le> 1"
proof -
  assume "vectorize_binomial R ps g = Inr r"
  then obtain g1 where "binomial_each R ps g1 = Inr r"
    by (auto simp: vectorize_binomial_def split: list.splits sum.splits prod.splits)
  then show ?thesis by (rule binomial_each_accepts)
qed

lemma error_is_ValueError: "(e::error) = ValueError"
  by (cases e)

lemma vectorize_binomial_rejects:
  assumes "p \<in> set ps" and "\<not> (\<exists>x. p = Fin x \<and> 0 \<le> x \<and> x \<le> 1)"
  shows "vectorize_binomial R ps g = Inl ValueError"
proof (cases "vectorize_binomial R ps g")
  case (Inl e)
  then show ?thesis by (simp add: error_is_ValueError[of e])
next
  case (Inr r)
  from vectorize_binomial_accepts[OF Inr] assms show ?thesis by blast
qed

lemma all_Fin_map: "\<forall>p \<in> set w. \<exists>x. p = Fin x \<Longrightarrow> \<exists>ws. w = map Fin ws"
proof (induction w)
  case Nil
  then show ?case by simp
next
  case (Cons p w)
  then obtain x ws where "p = Fin x" "w = map Fin ws" by auto
  then show ?case by (intro exI[of _ "x # ws"]) simp
qed

lemma binomial_each_draws:
  "\<forall>x \<in> set xs. 0 \<le> x \<and> x \<le> 1 \<Longrightarrow>
   binomial_each R (map Fin xs) g = Inr (bernoulli_draws R xs g)"
  by (induction xs arbitrary: g) (auto simp: np_binomial_def split: prod.splits)

lemma vectorize_binomial_draws:
  assumes "xs \<noteq> []" and "\<forall>x \<in> set xs. 0 \<le> x \<and> x \<le> 1"
  shows "vectorize_binomial R (map Fin xs) g =
           Inr (bernoulli_draws R xs (snd (binomial R 1 (hd xs) g)))"
proof -
  from assms(1) obtain x0 ys where xs: "xs = x0 # ys" by (cases xs) auto
  obtain y g1 where y: "binomial R 1 x0 g = (y, g1)" by (cases "binomial R 1 x0 g")
  with xs assms(2) have np: "np_binomial R 1 (Fin x0) g = Inr (y, g1)"
    by (simp add: np_binomial_def)
  have "vectorize_binomial R (map Fin xs) g = binomial_each R (map Fin xs) g1"
    using xs np by (simp add: vectorize_binomial_def del: binomial_each.simps)
  also have "\<dots> = Inr (bernoulli_draws R xs g1)"
    by (rule binomial_each_draws[OF assms(2)])
  finally show ?thesis using xs y by simp
qed

lemma sum_list_unit_bounds:
  "\<forall>x \<in> set xs. 0 \<le> x \<and> x \<le> (1::int) \<Longrightarrow> 0 \<le> sum_list xs \<and> sum_list xs \<le> int (length xs)"
  by (induction xs) auto

lemma weighted_fg_percent_length:
  "weighted_fg_percent fg adj M locs = Inr ps \<Longrightarrow> length ps = length locs"
  by (auto simp: weighted_fg_percent_def np_dot_def split: sum.splits if_splits)

lemma simulate_game_outcomes:
  assumes "rng_ok R" and "gmm_ok M"
    and "draw_fga R m s g = Inr (fga_i, g2)"
    and "simulate_game R M fg adj m s g = Inr (fg3m, g3)"
  shows "\<exists>fgm_i. length fgm_i = fga_i \<and> (\<forall>x \<in> set fgm_i. 0 \<le> x \<and> x \<le> 1) \<and> fg3m = sum_list fgm_i"
proof (cases "fga_i = 0")
  case True
  with assms(3,4) have "fg3m = 0" by (simp add: simulate_game_def)
  with True show ?thesis by (intro exI[of _ "[]"]) simp
next
  case False
  with assms(3,4) obtain ps fgm_i where
    w: "weighted_fg_percent fg adj M (sample M fga_i) = Inr ps"
    and v: "vectorize_binomial R ps g2 = Inr (fgm_i, g3)" and s: "fg3m = sum_list fgm_i"
    by (auto simp: simulate_game_def split: sum.splits prod.splits)
  from v obtain g1 where b: "binomial_each R ps g1 = Inr (fgm_i, g3)"
    by (auto simp: vectorize_binomial_def split: list.splits sum.splits prod.splits)
  from weighted_fg_percent_length[OF w] assms(2) have "length ps = fga_i"
    by (simp add: gmm_ok_def)
  with binomial_each_length[OF b] binomial_each_range[OF assms(1) b] s show ?thesis by auto
qed

lemma simulate_game_nonneg:
  assumes "rng_ok R" and "gmm_ok M"
    and "simulate_game R M fg adj m s g = Inr (fg3m, g3)"
  shows "0 \<le> fg3m"
proof -
  from assms(3) obtain fga_i g2 where d: "draw_fga R m s g = Inr (fga_i, g2)"
    by (auto simp: simulate_game_def split: sum.splits prod.splits)
  from simulate_game_outcomes[OF assms(1,2) d assms(3)] sum_list_unit_bounds
  show ?thesis by blast
qed

lemma simulate_shape:
  assumes "rng_ok R" and "gmm_ok M"
  shows "simulate R M fg adj m s n g = Inr (r, g') \<Longrightarrow> length r = n \<and> (\<forall>x \<in> set r. 0 \<le> x)"
proof (induction n arbitrary: g r g')
  case 0
  then show ?case by simp
next
  case (Suc n)
  from Suc.prems obtain x g1 xs where
    a: "simulate_game R M fg adj m s g = Inr (x, g1)"
    and b: "simulate R M fg adj m s n g1 = Inr (xs, g')" and c: "r = x # xs"
    by (auto split: sum.splits prod.splits)
  from simulate_game_nonneg[OF assms a] Suc.IH[OF b] c show ?case by simp
qed

lemma simulate_game_returns_iff:
  assumes "gmm_ok M"
  shows "(\<exists>x g'. simulate_game R M fg adj m s g = Inr (x, g')) \<longleftrightarrow>
         game_accepted R M fg adj m s g"
proof
  assume "\<exists>x g'. simulate_game R M fg adj m s g = Inr (x, g')"
  then obtain x g' where r: "simulate_game R M fg adj m s g = Inr (x, g')" by blast
  then obtain k g2 where d: "draw_fga R m s g = Inr (k, g2)"
    by (auto simp: simulate_game_def split: sum.splits prod.splits)
  show "game_accepted R M fg adj m s g"
  proof (cases "k = 0")
    case True
    with d show ?thesis by (auto simp: game_accepted_def)
  next
    case False
    with r d obtain ps res where w: "weighted_fg_percent fg adj M (sample M k) = Inr ps"
      and v: "vectorize_binomial R ps g2 = Inr res"
      by (auto simp: simulate_game_def split: sum.splits prod.splits)
    from vectorize_binomial_accepts[OF v] w d show ?thesis
      unfolding game_accepted_def by blast
  qed
next
  assume "game_accepted R M fg adj m s g"
  then obtain k g2 where d: "draw_fga R m s g = Inr (k, g2)"
    and c: "k = 0 \<or> (\<exists>ps. weighted_fg_percent fg adj M (sample M k) = Inr ps \<and>
            (\<forall>p \<in> set ps. \<exists>x. p = Fin x \<and> 0 \<le> x \<and> x \<le> 1))"
    unfolding game_accepted_def by blast
  show "\<exists>x g'. simulate_game R M fg adj m s g = Inr (x, g')"
  proof (cases "k = 0")
    case True
    with d show ?thesis by (simp add: simulate_game_def)
  next
    case False
    with c obtain ps where w: "weighted_fg_percent fg adj M (sample M k) = Inr ps"
      and r: "\<forall>p \<in> set ps. \<exists>x. p = Fin x \<and> 0 \<le> x \<and> x \<le> 1" by blast
    from weighted_fg_percent_length[OF w] assms False have "ps \<noteq> []"
      by (auto simp: gmm_ok_def)
    then obtain p0 qs where ps: "ps = p0 # qs" by (cases ps) auto
    with r obtain x0 where p0: "p0 = Fin x0" "0 \<le> x0" "x0 \<le> 1" by auto
    obtain y g3 where y: "binomial R 1 x0 g2 = (y, g3)" by (cases "binomial R 1 x0 g2")
    from binomial_each_succeeds[OF r, of R g3] obtain xs g4 where
      "binomial_each R ps g3 = Inr (xs, g4)" by blast
    with ps p0 y have "vectorize_binomial R ps g2 = Inr (xs, g4)"
      by (simp add: vectorize_binomial_def np_binomial_def)
    with d w False show ?thesis by (simp add: simulate_game_def)
  qed
qed

lemma simulate_snoc:
  "simulate R M fg adj m s (Suc n) g =
     (case simulate R M fg adj m s n g of
        Inl e \<Rightarrow> Inl e
      | Inr (r, g1) \<Rightarrow>
          (case simulate_game R M fg adj m s g1 of
             Inl e \<Rightarrow> Inl e
           | Inr (x, g2) \<Rightarrow> Inr (r @ [x], g2)))"
proof (induction n arbitrary: g)
  case 0
  show ?case by (simp split: sum.splits prod.splits)
next
  case (Suc n)
  show ?case
  proof (cases "simulate_game R M fg adj m s g")
    case (Inl e)
    then show ?thesis by simp
  next
    case (Inr a)
    obtain x g1 where a: "a = (x, g1)" by (cases a)
    have "simulate R M fg adj m s (Suc (Suc n)) g =
        (case simulate R M fg adj m s (Suc n) g1 of
           Inl e \<Rightarrow> Inl e | Inr (r, g2) \<Rightarrow> Inr (x # r, g2))"
      using Inr a by simp
    also have "\<dots> =
        (case simulate R M fg adj m s (Suc n) g of
           Inl e \<Rightarrow> Inl e
         | Inr (r, g1) \<Rightarrow>
             (case simulate_game R M fg adj m s g1 of
                Inl e \<Rightarrow> Inl e
              | Inr (x, g2) \<Rightarrow> Inr (r @ [x], g2)))"
      unfolding Suc.IH[of g1] using Inr a
      by (simp split: sum.splits prod.splits)
    finally show ?thesis .
  qed
qed

lemma simulate_returns_iff:
  assumes "gmm_ok M"
  shows "(\<exists>r g'. simulate R M fg adj m s n g = Inr (r, g')) \<longleftrightarrow>
         (\<forall>i<n. \<exists>r_i g_i. simulate R M fg adj m s i g = Inr (r_i, g_i) \<and>
            game_accepted R M fg adj m s g_i)"
proof (induction n)
  case 0
  show ?case by simp
next
  case (Suc n)
  let ?Q = "\<lambda>i. \<exists>r_i g_i. simulate R M fg adj m s i g = Inr (r_i, g_i) \<and>
            game_accepted R M fg adj m s g_i"
  have a: "(\<exists>r g'. simulate R M fg adj m s (Suc n) g = Inr (r, g')) \<longleftrightarrow> ?Q n"
  proof
    assume "\<exists>r g'. simulate R M fg adj m s (Suc n) g = Inr (r, g')"
    then obtain r g' where "simulate R M fg adj m s (Suc n) g = Inr (r, g')" by blast
    then obtain r1 g1 x where n: "simulate R M fg adj m s n g = Inr (r1, g1)"
      and "simulate_game R M fg adj m s g1 = Inr (x, g')"
      unfolding simulate_snoc by (auto split: sum.splits prod.splits)
    with simulate_game_returns_iff[OF assms, of R fg adj m s g1]
    have "game_accepted R M fg adj m s g1" by blast
    with n show "?Q n" by blast
  next
    assume "?Q n"
    then obtain r1 g1 where n: "simulate R M fg adj m s n g = Inr (r1, g1)"
      and "game_accepted R M fg adj m s g1" by blast
    with simulate_game_returns_iff[OF assms, of R fg adj m s g1]
    obtain x g2 where "simulate_game R M fg adj m s g1 = Inr (x, g2)" by blast
    with n show "\<exists>r g'. simulate R M fg adj m s (Suc n) g = Inr (r, g')"
      unfolding simulate_snoc by simp
  qed
  have "?Q n \<Longrightarrow> \<exists>r g'. simulate R M fg adj m s n g = Inr (r, g')" by blast
  with Suc have b: "?Q n \<Longrightarrow> \<forall>i<n. ?Q i" by blast
  have "(\<forall>i<Suc n. ?Q i) \<longleftrightarrow> (\<forall>i<n. ?Q i) \<and> ?Q n"
    by (simp only: less_Suc_eq) blast
  with a b show ?case by blast
qed

lemma simulate_raises_iff:
  assumes "gmm_ok M"
  shows "simulate R M fg adj m s n g = Inl ValueError \<longleftrightarrow>
         (\<exists>i<n. \<exists>r_i g_i. simulate R M fg adj m s i g = Inr (r_i, g_i) \<and>
            \<not> game_accepted R M fg adj m s g_i)"
proof (induction n)
  case 0
  show ?case by simp
next
  case (Suc n)
  let ?B = "\<lambda>i. \<exists>r_i g_i. simulate R M fg adj m s i g = Inr (r_i, g_i) \<and>
            \<not> game_accepted R M fg adj m s g_i"
  have split: "(\<exists>i<Suc n. ?B i) \<longleftrightarrow> (\<exists>i<n. ?B i) \<or> ?B n"
    by (simp only: less_Suc_eq) blast
  show ?case
  proof (cases "simulate R M fg adj m s n g")
    case (Inl e)
    then have l: "simulate R M fg adj m s n g = Inl ValueError"
      by (simp add: error_is_ValueError[of e])
    then have "simulate R M fg adj m s (Suc n) g = Inl ValueError"
      unfolding simulate_snoc by simp
    moreover from l Suc have "\<exists>i<n. ?B i" by simp
    ultimately show ?thesis using split by blast
  next
    case (Inr a)
    obtain r1 g1 where a: "a = (r1, g1)" by (cases a)
    with Inr have n: "simulate R M fg adj m s n g = Inr (r1, g1)" by simp
    with Suc have no: "\<not> (\<exists>i<n. ?B i)" by simp
    from n have bn: "?B n \<longleftrightarrow> \<not> game_accepted R M fg adj m s g1" by simp
    have "simulate R M fg adj m s (Suc n) g = Inl ValueError \<longleftrightarrow>
          \<not> (\<exists>x g2. simulate_game R M fg adj m s g1 = Inr (x, g2))"
      unfolding simulate_snoc using n
      by (cases "simulate_game R M fg adj m s g1")
         (auto simp: error_is_ValueError)
    with simulate_game_returns_iff[OF assms, of R fg adj m s g1] bn no split
    show ?thesis by blast
  qed
qed

subsection \<open>The concrete generators and model\<close>

lemma rng_ok_R0: "rng_ok R0"
  by (simp add: rng_ok_def R0_def)

lemma rng_ok_R1: "rng_ok R1"
  by (simp add: rng_ok_def R1_def R0_def)

lemma gmm_ok_M0: "gmm_ok M0"
  by (auto simp: gmm_ok_def M0_def)

lemma draw_fga_R0_2: "draw_fga R0 (Fin 2) (Fin 0) g = Inr (2, Suc (Suc g))"
  by (simp add: draw_fga_def np_normal_def np_poisson_def R0_def POISSON_LAM_MAX_def)

lemma draw_fga_R0_0: "draw_fga R0 (Fin 0) (Fin 0) g = Inr (0, Suc (Suc g))"
  by (simp add: draw_fga_def np_normal_def np_poisson_def R0_def POISSON_LAM_MAX_def)

lemma draw_fga_R0_1: "draw_fga R0 (Fin 1) (Fin 0) g = Inr (1, Suc (Suc g))"
  by (simp add: draw_fga_def np_normal_def np_poisson_def R0_def POISSON_LAM_MAX_def)

lemma draw_fga_R1_raises: "draw_fga R1 (Fin 2) (Fin 1) g = Inl ValueError"
  by (simp add: draw_fga_def np_normal_def np_poisson_def R1_def R0_def)

lemma simulate_game_ex:
  "simulate_game R0 M0 [Fin 1, Fin (1 / 2), Fin (1 / 4)]
      [(1, Fin (1 / 2)), (3, Fin 1), (5, Fin 1)] (Fin 2) (Fin 0) 0 = Inr (1, 5)"
proof -
  have w: "weighted_fg_percent [Fin 1, Fin (1 / 2), Fin (1 / 4)]
      [(1, Fin (1 / 2)), (3, Fin 1), (5, Fin 1)] M0 (sample M0 2) = Inr [Fin (1 / 2), Fin (1 / 2)]"
    by (simp add: weighted_fg_percent_def values_mul_series_def np_dot_def dotf_def fsum_def M0_def
        numeral_2_eq_2)
  have v: "vectorize_binomial R0 [Fin (1 / 2), Fin (1 / 2)] (Suc (Suc 0)) = Inr ([0, 1], 5)"
    by (simp add: vectorize_binomial_def np_binomial_def R0_def)
  from w v show ?thesis
    by (simp add: simulate_game_def draw_fga_R0_2)
qed

lemma simulate_ex:
  "simulate R0 M0 [Fin 1, Fin (1 / 2), Fin (1 / 4)] [(1, Fin (1 / 2)), (3, Fin 1), (5, Fin 1)]
     (Fin 2) (Fin 0) 1 0 = Inr ([1], 5)"
  using simulate_game_ex by simp

lemma weighted_two_shots_ex:
  "weighted_fg_percent [Fin 1, Fin (1 / 2), Fin (1 / 4)]
      [(1, Fin (1 / 2)), (3, Fin 1), (5, Fin 1)] M0 (sample M0 2) = Inr (map Fin [1 / 2, 1 / 2])"
  by (simp add: weighted_fg_percent_def values_mul_series_def np_dot_def dotf_def fsum_def M0_def
      numeral_2_eq_2)

lemma game_accepted_ex:
  "game_accepted R0 M0 [Fin 1, Fin (1 / 2), Fin (1 / 4)] [(1, Fin (1 / 2)), (3, Fin 1), (5, Fin 1)]
     (Fin 2) (Fin 0) 0"
proof -
  have r: "\<forall>p \<in> set [Fin (1 / 2), Fin (1 / 2)]. \<exists>x. p = Fin x \<and> 0 \<le> x \<and> x \<le> 1"
    by (auto intro!: exI[of _ "1 / 2"])
  have w: "weighted_fg_percent [Fin 1, Fin (1 / 2), Fin (1 / 4)]
      [(1, Fin (1 / 2)), (3, Fin 1), (5, Fin 1)] M0 (sample M0 2) = Inr [Fin (1 / 2), Fin (1 / 2)]"
    using weighted_two_shots_ex by simp
  have d: "draw_fga R0 (Fin 2) (Fin 0) 0 = Inr (2, 2)"
    by (simp add: draw_fga_R0_2 numeral_2_eq_2)
  from d w r show ?thesis unfolding game_accepted_def by blast
qed

lemma game_rejected_ex:
  "\<not> game_accepted R1 M0 [Fin 1, Fin (1 / 2), Fin (1 / 4)]
       [(1, Fin (1 / 2)), (3, Fin 1), (5, Fin 1)] (Fin 2) (Fin 1) 0"
  by (simp add: game_accepted_def draw_fga_R1_raises)

lemma weighted_NaN_ex:
  "weighted_fg_percent [Fin 1, Fin (1 / 2), Fin (1 / 4)] [(1, Fin 1), (3, Fin 1), (5, NaN)] M0
     (sample M0 2) = Inr [NaN, NaN]"
  by (simp add: weighted_fg_percent_def values_mul_series_def np_dot_def dotf_def fsum_def M0_def
      numeral_2_eq_2)

lemma weighted_one_shot_ex:
  "weighted_fg_percent [Fin 1, Fin (1 / 2), Fin (1 / 4)] [(1, Fin (1 / 2)), (3, Fin 1), (5, Fin 1)]
     M0 [(- 1, 0)] = Inr [Fin (1 / 2)]"
  by (simp add: weighted_fg_percent_def values_mul_series_def np_dot_def dotf_def fsum_def M0_def)

subsection \<open>A game without attempts\<close>

text \<open>
  Claim C6. When the attempt count drawn for a game is 0, the game records 0 makes and
  ends there: the result is \<open>Inr (0, g2)\<close> with \<open>g2\<close> the generator state right after
  the attempt draw, so no Bernoulli outcome is drawn; and the result mentions neither the
  model nor the rate and adjustment tables, so no shot location is sampled and no
  membership probability is computed.
\<close>

theorem zero_attempts_end_the_game:
  "draw_fga R est_mean est_std g = Inr (0, g2) \<Longrightarrow>
   simulate_game R M fg_percent def_adj est_mean est_std g = Inr (0, g2)"
  by (simp add: simulate_game_def)

text \<open>
  In the example the two tables have lengths whose product would raise for any shot; the
  game without attempts still ends with 0 makes.
\<close>

theorem zero_attempts_end_the_game_witness:
  "draw_fga R0 (Fin 0) (Fin 0) 0 = Inr (0, 2) \<and>
   values_mul_series [Fin 1, Fin 2] [] = Inl ValueError \<and>
   simulate_game R0 M0 [Fin 1, Fin 2] [] (Fin 0) (Fin 0) 0 = Inr (0, 2)"
  using zero_attempts_end_the_game [of R0 "Fin 0" "Fin 0" 0 2 M0 "[Fin 1, Fin 2]" "[]"]
  by (simp add: draw_fga_R0_0 values_mul_series_def)

subsection \<open>Makes never exceed attempts\<close>

text \<open>
  Claim C10, as amended. In a game with a positive attempt count that records a made
  count, the effective probabilities are numbers \<open>xs\<close>, one per sampled shot, and the
  recorded count is the sum of the outcomes \<open>bernoulli_draws\<close> draws for them, one per
  shot and each 0 or 1, so it lies between 0 and the attempt count. These outcomes are not
  drawn from the generator as the attempt draw left it: \<^verbatim>\<open>np.vectorize\<close> first calls
  \<^verbatim>\<open>np.random.binomial\<close> once more on the first shot to learn the output type, and that
  outcome is discarded. A game of \<open>k\<close> attempts draws \<open>k + 1\<close> Bernoulli outcomes and
  sums the last \<open>k\<close>. The generator and the model are assumed to keep their documented
  ranges and shapes.
\<close>

theorem made_count_at_most_attempts:
  assumes "rng_ok R" and "gmm_ok M"
    and "draw_fga R est_mean est_std g = Inr (fga_i, g2)" and "0 < fga_i"
    and "simulate_game R M fg_percent def_adj est_mean est_std g = Inr (fg3m, g3)"
  shows "\<exists>xs fgm_i.
           weighted_fg_percent fg_percent def_adj M (sample M fga_i) = Inr (map Fin xs) \<and>
           length xs = fga_i \<and>
           bernoulli_draws R xs (snd (binomial R 1 (hd xs) g2)) = (fgm_i, g3) \<and>
           length fgm_i = fga_i \<and> (\<forall>y \<in> set fgm_i. y = 0 \<or> y = 1) \<and>
           fg3m = sum_list fgm_i \<and> 0 \<le> fg3m \<and> fg3m \<le> int fga_i"
proof -
  from assms(3,4,5) obtain ps fgm_i where
    w: "weighted_fg_percent fg_percent def_adj M (sample M fga_i) = Inr ps"
    and v: "vectorize_binomial R ps g2 = Inr (fgm_i, g3)" and s: "fg3m = sum_list fgm_i"
    by (auto simp: simulate_game_def split: sum.splits prod.splits)
  from vectorize_binomial_accepts[OF v]
  have r: "\<forall>p \<in> set ps. \<exists>x. p = Fin x \<and> 0 \<le> x \<and> x \<le> 1" .
  then have "\<forall>p \<in> set ps. \<exists>x. p = Fin x" by blast
  from all_Fin_map[OF this] obtain xs where ps: "ps = map Fin xs" by blast
  with r have x: "\<forall>x \<in> set xs. 0 \<le> x \<and> x \<le> 1" by auto
  from weighted_fg_percent_length[OF w] assms(2) have "length ps = fga_i"
    by (simp add: gmm_ok_def)
  with ps have l: "length xs = fga_i" by simp
  with assms(4) have "xs \<noteq> []" by auto
  from vectorize_binomial_draws[OF this x, of R g2] v ps
  have d: "bernoulli_draws R xs (snd (binomial R 1 (hd xs) g2)) = (fgm_i, g3)" by simp
  from v obtain g1 where b: "binomial_each R ps g1 = Inr (fgm_i, g3)"
    by (auto simp: vectorize_binomial_def split: list.splits sum.splits prod.splits)
  from binomial_each_range[OF assms(1) b]
  have u: "\<forall>y \<in> set fgm_i. 0 \<le> y \<and> y \<le> 1" .
  then have z: "\<forall>y \<in> set fgm_i. y = 0 \<or> y = 1" by auto
  from binomial_each_length[OF b] \<open>length ps = fga_i\<close> have n: "length fgm_i = fga_i" by simp
  from sum_list_unit_bounds[OF u] s n have "0 \<le> fg3m \<and> fg3m \<le> int fga_i" by simp
  with w ps l d n z s show ?thesis by blast
qed

theorem made_count_at_most_attempts_witness:
  "rng_ok R0 \<and> gmm_ok M0 \<and> draw_fga R0 (Fin 2) (Fin 0) 0 = Inr (2, 2) \<and> (0::nat) < 2 \<and>
   simulate_game R0 M0 [Fin 1, Fin (1 / 2), Fin (1 / 4)]
      [(1, Fin (1 / 2)), (3, Fin 1), (5, Fin 1)] (Fin 2) (Fin 0) 0 = Inr (1, 5) \<and>
   weighted_fg_percent [Fin 1, Fin (1 / 2), Fin (1 / 4)]
      [(1, Fin (1 / 2)), (3, Fin 1), (5, Fin 1)] M0 (sample M0 2) = Inr (map Fin [1 / 2, 1 / 2]) \<and>
   bernoulli_draws R0 [1 / 2, 1 / 2] (snd (binomial R0 1 (1 / 2) 2)) = ([0, 1], 5) \<and>
   (\<exists>xs fgm_i.
      weighted_fg_percent [Fin 1, Fin (1 / 2), Fin (1 / 4)]
        [(1, Fin (1 / 2)), (3, Fin 1), (5, Fin 1)] M0 (sample M0 2) = Inr (map Fin xs) \<and>
      length xs = 2 \<and>
      bernoulli_draws R0 xs (snd (binomial R0 1 (hd xs) 2)) = (fgm_i, 5) \<and>
      length fgm_i = 2 \<and> (\<forall>y \<in> set fgm_i. y = 0 \<or> y = 1) \<and>
      (1::int) = sum_list fgm_i \<and> (0::int) \<le> 1 \<and> (1::int) \<le> int 2)"
proof -
  have d: "draw_fga R0 (Fin 2) (Fin 0) 0 = Inr (2, 2)"
    by (simp add: draw_fga_R0_2 numeral_2_eq_2)
  have p: "(0::nat) < 2" by simp
  have b: "bernoulli_draws R0 [1 / 2, 1 / 2] (snd (binomial R0 1 (1 / 2) 2)) = ([0, 1], 5)"
    by (simp add: R0_def)
  from made_count_at_most_attempts [OF rng_ok_R0 gmm_ok_M0 d p simulate_game_ex]
  show ?thesis using rng_ok_R0 gmm_ok_M0 d simulate_game_ex weighted_two_shots_ex b by simp
qed

text \<open>
  Claim C10 as stated fails: with one attempt, one outcome per shot drawn after the
  attempt draw is the outcome 1 and leaves the generator in state 3. The game records 0
  and leaves the generator in state 4: two outcomes are drawn for the single shot, and the
  recorded count is the second.
\<close>

theorem probe_draw_counterexample:
  "draw_fga R0 (Fin 1) (Fin 0) 0 = Inr (1, 2) \<and>
   weighted_fg_percent [Fin 1, Fin (1 / 2), Fin (1 / 4)]
      [(1, Fin (1 / 2)), (3, Fin 1), (5, Fin 1)] M0 (sample M0 1) = Inr [Fin (1 / 2)] \<and>
   bernoulli_draws R0 [1 / 2] 2 = ([1], 3) \<and>
   simulate_game R0 M0 [Fin 1, Fin (1 / 2), Fin (1 / 4)]
      [(1, Fin (1 / 2)), (3, Fin 1), (5, Fin 1)] (Fin 1) (Fin 0) 0 = Inr (0, 4)"
proof -
  have d: "draw_fga R0 (Fin 1) (Fin 0) 0 = Inr (1, 2)"
    by (simp add: draw_fga_R0_1 numeral_2_eq_2)
  have w: "weighted_fg_percent [Fin 1, Fin (1 / 2), Fin (1 / 4)]
      [(1, Fin (1 / 2)), (3, Fin 1), (5, Fin 1)] M0 (sample M0 1) = Inr [Fin (1 / 2)]"
    by (simp add: weighted_fg_percent_def values_mul_series_def np_dot_def dotf_def fsum_def M0_def)
  have b: "bernoulli_draws R0 [1 / 2] 2 = ([1], 3)"
    by (simp add: R0_def)
  have v: "vectorize_binomial R0 [Fin (1 / 2)] 2 = Inr ([0], 4)"
    by (simp add: vectorize_binomial_def np_binomial_def R0_def)
  from d w v have "simulate_game R0 M0 [Fin 1, Fin (1 / 2), Fin (1 / 4)]
      [(1, Fin (1 / 2)), (3, Fin 1), (5, Fin 1)] (Fin 1) (Fin 0) 0 = Inr (0, 4)"
    by (simp add: simulate_game_def)
  with d w b show ?thesis by simp
qed

subsection \<open>Probabilities outside the unit interval\<close>

text \<open>
  Claim C3, as amended. The simulator does not clamp. In a game with a positive attempt
  count, an effective make probability that is not a number in \<open>[0, 1]\<close> (above 1,
  below 0, or \<open>NaN\<close>) makes the Bernoulli draw raise \<^verbatim>\<open>ValueError\<close>; the error ends the
  game and, the game being the first of a run, the whole simulation.
\<close>

theorem out_of_range_probability_raises:
  assumes "draw_fga R est_mean est_std g = Inr (fga_i, g2)" and "0 < fga_i"
    and "weighted_fg_percent fg_percent def_adj M (sample M fga_i) = Inr ps"
    and "p \<in> set ps" and "\<not> (\<exists>x. p = Fin x \<and> 0 \<le> x \<and> x \<le> 1)"
  shows "simulate_game R M fg_percent def_adj est_mean est_std g = Inl ValueError \<and>
         simulate R M fg_percent def_adj est_mean est_std (Suc n) g = Inl ValueError"
proof -
  from assms(4,5) have "vectorize_binomial R ps g2 = Inl ValueError"
    by (rule vectorize_binomial_rejects)
  with assms(1,2,3) have "simulate_game R M fg_percent def_adj est_mean est_std g = Inl ValueError"
    by (simp add: simulate_game_def)
  then show ?thesis by simp
qed

theorem out_of_range_probability_raises_witness:
  "draw_fga R0 (Fin 2) (Fin 0) 0 = Inr (2, 2) \<and> (0::nat) < 2 \<and>
   weighted_fg_percent [Fin 1, Fin (1 / 2), Fin (1 / 4)] [(1, Fin 1), (3, Fin 1), (5, NaN)] M0
     (sample M0 2) = Inr [NaN, NaN] \<and>
   NaN \<in> set [NaN, NaN] \<and> \<not> (\<exists>x. NaN = Fin x \<and> 0 \<le> x \<and> x \<le> 1) \<and>
   simulate_game R0 M0 [Fin 1, Fin (1 / 2), Fin (1 / 4)] [(1, Fin 1), (3, Fin 1), (5, NaN)]
     (Fin 2) (Fin 0) 0 = Inl ValueError \<and>
   simulate R0 M0 [Fin 1, Fin (1 / 2), Fin (1 / 4)] [(1, Fin 1), (3, Fin 1), (5, NaN)]
     (Fin 2) (Fin 0) (Suc 4) 0 = Inl ValueError"
proof -
  have d: "draw_fga R0 (Fin 2) (Fin 0) 0 = Inr (2, 2)"
    by (simp add: draw_fga_R0_2 numeral_2_eq_2)
  have m: "NaN \<in> set [NaN, NaN]" by simp
  have n: "\<not> (\<exists>x. NaN = Fin x \<and> 0 \<le> x \<and> x \<le> 1)" by simp
  from out_of_range_probability_raises [OF d _ weighted_NaN_ex m n, of 4]
  show ?thesis using d weighted_NaN_ex by simp
qed

text \<open>
  Claim C3 as stated fails: an adjustment of \<open>3/2\<close> lifts the rate 1 of zone 0 to the
  effective probability \<open>3/2\<close> for both sampled shots, and the simulation of one game
  raises instead of drawing with probability 1.
\<close>

theorem unclamped_probability_counterexample:
  "weighted_fg_percent [Fin 1, Fin (1 / 2), Fin (1 / 4)] [(1, Fin (3 / 2)), (3, Fin 1), (5, Fin 1)] M0
     (sample M0 2) = Inr [Fin (3 / 2), Fin (3 / 2)] \<and>
   simulate R0 M0 [Fin 1, Fin (1 / 2), Fin (1 / 4)] [(1, Fin (3 / 2)), (3, Fin 1), (5, Fin 1)]
     (Fin 2) (Fin 0) 1 0 = Inl ValueError"
proof -
  have w: "weighted_fg_percent [Fin 1, Fin (1 / 2), Fin (1 / 4)]
      [(1, Fin (3 / 2)), (3, Fin 1), (5, Fin 1)] M0 (sample M0 2) = Inr [Fin (3 / 2), Fin (3 / 2)]"
    by (simp add: weighted_fg_percent_def values_mul_series_def np_dot_def dotf_def fsum_def M0_def
        numeral_2_eq_2)
  have v: "vectorize_binomial R0 [Fin (3 / 2), Fin (3 / 2)] (Suc (Suc 0)) = Inl ValueError"
    by (simp add: vectorize_binomial_def np_binomial_def)
  from w v have "simulate_game R0 M0 [Fin 1, Fin (1 / 2), Fin (1 / 4)]
      [(1, Fin (3 / 2)), (3, Fin 1), (5, Fin 1)] (Fin 2) (Fin 0) 0 = Inl ValueError"
    by (simp add: simulate_game_def draw_fga_R0_2)
  with w show ?thesis by simp
qed

subsection \<open>Length and entries of the result\<close>

text \<open>
  Claim C5, as amended. Simulating 0 games returns the empty result. Whenever the
  simulation of \<open>n\<close> games returns, its result has length exactly \<open>n\<close> and every entry
  is a non-negative integer. It returns exactly when the draws of every game of the run
  are accepted (\<open>game_accepted\<close>, at the generator state the games before it left):
  the attempt draw returns a count (the deviation is not negative and the drawn rate is
  a number from 0 to the largest rate the Poisson draw takes) and, for a positive count,
  the effective probabilities are computed and lie in \<open>[0, 1]\<close>. It raises
  \<^verbatim>\<open>ValueError\<close> exactly when the run reaches a game whose draws are not accepted.
\<close>

theorem simulate_result_shape:
  assumes "rng_ok R" and "gmm_ok M"
  shows "simulate R M fg_percent def_adj est_mean est_std 0 g = Inr ([], g) \<and>
         (simulate R M fg_percent def_adj est_mean est_std n g = Inr (fg3m_s, g') \<longrightarrow>
            length fg3m_s = n \<and> (\<forall>x \<in> set fg3m_s. 0 \<le> x)) \<and>
         ((\<exists>r g2. simulate R M fg_percent def_adj est_mean est_std n g = Inr (r, g2)) \<longleftrightarrow>
          (\<forall>i<n. \<exists>r_i g_i.
             simulate R M fg_percent def_adj est_mean est_std i g = Inr (r_i, g_i) \<and>
             game_accepted R M fg_percent def_adj est_mean est_std g_i)) \<and>
         (simulate R M fg_percent def_adj est_mean est_std n g = Inl ValueError \<longleftrightarrow>
          (\<exists>i<n. \<exists>r_i g_i.
             simulate R M fg_percent def_adj est_mean est_std i g = Inr (r_i, g_i) \<and>
             \<not> game_accepted R M fg_percent def_adj est_mean est_std g_i))"
proof (intro conjI impI)
  show "simulate R M fg_percent def_adj est_mean est_std 0 g = Inr ([], g)" by simp
next
  assume "simulate R M fg_percent def_adj est_mean est_std n g = Inr (fg3m_s, g')"
  from simulate_shape[OF assms this] show "length fg3m_s = n" "\<forall>x \<in> set fg3m_s. 0 \<le> x"
    by simp_all
next
  show "(\<exists>r g2. simulate R M fg_percent def_adj est_mean est_std n g = Inr (r, g2)) \<longleftrightarrow>
          (\<forall>i<n. \<exists>r_i g_i.
             simulate R M fg_percent def_adj est_mean est_std i g = Inr (r_i, g_i) \<and>
             game_accepted R M fg_percent def_adj est_mean est_std g_i)"
    by (rule simulate_returns_iff[OF assms(2)])
next
  show "simulate R M fg_percent def_adj est_mean est_std n g = Inl ValueError \<longleftrightarrow>
          (\<exists>i<n. \<exists>r_i g_i.
             simulate R M fg_percent def_adj est_mean est_std i g = Inr (r_i, g_i) \<and>
             \<not> game_accepted R M fg_percent def_adj est_mean est_std g_i)"
    by (rule simulate_raises_iff[OF assms(2)])
qed

theorem simulate_result_shape_witness:
  "rng_ok R0 \<and> gmm_ok M0 \<and>
   simulate R0 M0 [Fin 1, Fin (1 / 2), Fin (1 / 4)] [(1, Fin (1 / 2)), (3, Fin 1), (5, Fin 1)]
     (Fin 2) (Fin 0) 0 0 = Inr ([], 0) \<and>
   game_accepted R0 M0 [Fin 1, Fin (1 / 2), Fin (1 / 4)] [(1, Fin (1 / 2)), (3, Fin 1), (5, Fin 1)]
     (Fin 2) (Fin 0) 0 \<and>
   simulate R0 M0 [Fin 1, Fin (1 / 2), Fin (1 / 4)] [(1, Fin (1 / 2)), (3, Fin 1), (5, Fin 1)]
     (Fin 2) (Fin 0) 1 0 = Inr ([1], 5) \<and>
   length [1::int] = 1 \<and> (0::int) \<le> 1 \<and>
   rng_ok R1 \<and>
   \<not> game_accepted R1 M0 [Fin 1, Fin (1 / 2), Fin (1 / 4)]
       [(1, Fin (1 / 2)), (3, Fin 1), (5, Fin 1)] (Fin 2) (Fin 1) 0 \<and>
   simulate R1 M0 [Fin 1, Fin (1 / 2), Fin (1 / 4)] [(1, Fin (1 / 2)), (3, Fin 1), (5, Fin 1)]
     (Fin 2) (Fin 1) 3 0 = Inl ValueError"
proof -
  let ?fg = "[Fin 1, Fin (1 / 2), Fin (1 / 4)]"
  let ?adj = "[(1::nat, Fin (1 / 2)), (3, Fin 1), (5, Fin 1)]"
  note ok = simulate_result_shape [OF rng_ok_R0 gmm_ok_M0, of ?fg ?adj "Fin 2" "Fin 0" 0 1 "[1]" 5]
  note bad = simulate_result_shape [OF rng_ok_R1 gmm_ok_M0, of ?fg ?adj "Fin 2" "Fin 1" 0 3 "[]" 0]
  have "\<exists>i<3. \<exists>r_i g_i. simulate R1 M0 ?fg ?adj (Fin 2) (Fin 1) i 0 = Inr (r_i, g_i) \<and>
          \<not> game_accepted R1 M0 ?fg ?adj (Fin 2) (Fin 1) g_i"
    using game_rejected_ex by (intro exI[of _ 0]) simp
  with bad have "simulate R1 M0 ?fg ?adj (Fin 2) (Fin 1) 3 0 = Inl ValueError" by blast
  with ok show ?thesis
    using rng_ok_R0 gmm_ok_M0 rng_ok_R1 simulate_ex game_accepted_ex game_rejected_ex by simp
qed

text \<open>
  Claim C5 as stated fails: with estimated mean 2 and deviation 1, a standard normal draw
  of \<open>-3\<close> gives the rate \<open>-1\<close>, which \<^verbatim>\<open>np.random.poisson\<close> refuses, and the
  simulation of one game returns no result.
\<close>

theorem negative_rate_counterexample:
  "np_normal R1 (Fin 2) (Fin 1) 0 = Inr (Fin (- 1), 1) \<and>
   simulate R1 M0 [Fin 1, Fin (1 / 2), Fin (1 / 4)] [(1, Fin (1 / 2)), (3, Fin 1), (5, Fin 1)]
     (Fin 2) (Fin 1) 1 0 = Inl ValueError"
proof -
  have n: "np_normal R1 (Fin 2) (Fin 1) 0 = Inr (Fin (- 1), 1)"
    by (simp add: np_normal_def R1_def R0_def)
  then have "draw_fga R1 (Fin 2) (Fin 1) 0 = Inl ValueError"
    by (simp add: draw_fga_def np_poisson_def)
  then have "simulate_game R1 M0 [Fin 1, Fin (1 / 2), Fin (1 / 4)]
     [(1, Fin (1 / 2)), (3, Fin 1), (5, Fin 1)] (Fin 2) (Fin 1) 0 = Inl ValueError"
    by (simp add: simulate_game_def)
  with n show ?thesis by simp
qed

subsection \<open>The effective make probability\<close>

lemma foldl_fadd_Fin: "foldl fadd (Fin a) (map Fin xs) = Fin (a + sum_list xs)"
  by (induction xs arbitrary: a) (simp_all add: add.assoc)

lemma fsum_Fin: "fsum (map Fin xs) = Fin (sum_list xs)"
  by (simp add: fsum_def foldl_fadd_Fin)

lemma dotf_Fin: "dotf (map Fin ws) row = Fin (\<Sum>(a, b)\<leftarrow>zip ws row. a * b)"
proof -
  have "map (\<lambda>(a, b). fmul a (Fin b)) (zip (map Fin ws) row) =
        map Fin (map (\<lambda>(a, b). a * b) (zip ws row))"
    by (simp add: zip_map1 case_prod_unfold)
  then show ?thesis unfolding dotf_def by (simp only: fsum_Fin)
qed

lemma zero_row_sum:
  "length ws = length row \<Longrightarrow> \<forall>k<length row. row ! k = (0::real) \<Longrightarrow>
   (\<Sum>(a, b)\<leftarrow>zip ws row. a * b) = 0"
proof (induction ws arbitrary: row)
  case Nil
  then show ?case by simp
next
  case (Cons a ws)
  then obtain b bs where row: "row = b # bs" by (cases row) auto
  with Cons.prems have "b = 0" "\<forall>k<length bs. bs ! k = 0" by auto
  with Cons row show ?case by simp
qed

lemma one_hot_sum:
  "length ws = length row \<Longrightarrow> z < length ws \<Longrightarrow> row ! z = (1::real) \<Longrightarrow>
   \<forall>k<length row. k \<noteq> z \<longrightarrow> row ! k = 0 \<Longrightarrow>
   (\<Sum>(a, b)\<leftarrow>zip ws row. a * b) = ws ! z"
proof (induction ws arbitrary: row z)
  case Nil
  then show ?case by simp
next
  case (Cons a ws)
  then obtain b bs where row: "row = b # bs" by (cases row) auto
  show ?case
  proof (cases z)
    case 0
    with Cons.prems row have b: "b = 1" and "\<forall>k<length bs. bs ! k = 0" by auto
    with Cons.prems row have "(\<Sum>(a, b)\<leftarrow>zip ws bs. a * b) = 0"
      by (intro zero_row_sum) auto
    with 0 row b show ?thesis by simp
  next
    case (Suc z')
    with Cons.prems row have "b = 0" by auto
    moreover from Cons.prems row Suc have "(\<Sum>(a, b)\<leftarrow>zip ws bs. a * b) = ws ! z'"
      by (intro Cons.IH) auto
    ultimately show ?thesis using row Suc by simp
  qed
qed

lemma values_mul_series_same_length:
  "length fg = length adj \<Longrightarrow>
   values_mul_series fg adj = Inr (map (\<lambda>(v, (i, x)). (i, fmul x v)) (zip fg adj))"
  by (simp add: values_mul_series_def)

text \<open>
  Claim C1, as amended. With a rate and an adjustment for each zone, the effective make
  probability of every sampled shot is the dot product of \<open>adjusted_rates\<close> (player rate
  times adjustment, zone by zone) with the shot's membership probabilities. For a shot
  whose membership is 1 for a zone \<open>z\<close> and 0 for every other zone, it is the adjusted
  rate of \<open>z\<close>, provided the adjusted rate of every zone is a finite number.
\<close>

theorem effective_probability_is_dot_product:
  assumes "weighted_fg_percent fg_percent def_adj M locs = Inr ps"
    and "length fg_percent = length def_adj" and "j < length locs"
  shows "ps ! j = dotf (adjusted_rates fg_percent def_adj) (predict_proba M (locs ! j)) \<and>
         ((\<forall>r \<in> set (adjusted_rates fg_percent def_adj). \<exists>x. r = Fin x) \<and>
          length (predict_proba M (locs ! j)) = length fg_percent \<and> z < length fg_percent \<and>
          predict_proba M (locs ! j) ! z = 1 \<and>
          (\<forall>k<length fg_percent. k \<noteq> z \<longrightarrow> predict_proba M (locs ! j) ! k = 0) \<longrightarrow>
          ps ! j = adjusted_rates fg_percent def_adj ! z)"
proof -
  let ?w = "adjusted_rates fg_percent def_adj"
  let ?row = "predict_proba M (locs ! j)"
  have m: "map snd (map (\<lambda>(v, (i, x)). (i, fmul x v)) (zip fg_percent def_adj)) = ?w"
    by (simp add: adjusted_rates_def case_prod_unfold)
  from assms(1) values_mul_series_same_length[OF assms(2)] m
  have "ps = map (dotf ?w) (map (predict_proba M) locs)"
    by (auto simp: weighted_fg_percent_def np_dot_def split: if_splits)
  with assms(3) have dot: "ps ! j = dotf ?w ?row" by simp
  have "ps ! j = ?w ! z"
    if h: "(\<forall>r \<in> set ?w. \<exists>x. r = Fin x) \<and> length ?row = length fg_percent \<and>
          z < length fg_percent \<and> ?row ! z = 1 \<and>
          (\<forall>k<length fg_percent. k \<noteq> z \<longrightarrow> ?row ! k = 0)"
  proof -
    from h all_Fin_map obtain ws where ws: "?w = map Fin ws" by blast
    have "length ?w = length fg_percent"
      by (simp add: adjusted_rates_def assms(2))
    with ws have l: "length ws = length fg_percent" by (metis length_map)
    with h have "(\<Sum>(a, b)\<leftarrow>zip ws ?row. a * b) = ws ! z"
      by (intro one_hot_sum) auto
    with dot ws l h show ?thesis by (simp add: dotf_Fin)
  qed
  with dot show ?thesis by blast
qed

theorem effective_probability_is_dot_product_witness:
  "weighted_fg_percent [Fin 1, Fin (1 / 2), Fin (1 / 4)] [(1, Fin (1 / 2)), (3, Fin 1), (5, Fin 1)]
     M0 [(- 1, 0)] = Inr [Fin (1 / 2)] \<and>
   length [Fin 1, Fin (1 / 2), Fin (1 / 4)] = length [(1::nat, Fin (1 / 2)), (3, Fin 1), (5, Fin 1)] \<and>
   (0::nat) < length [(- 1 :: real, 0 :: real)] \<and>
   adjusted_rates [Fin 1, Fin (1 / 2), Fin (1 / 4)] [(1, Fin (1 / 2)), (3, Fin 1), (5, Fin 1)] =
     [Fin (1 / 2), Fin (1 / 2), Fin (1 / 4)] \<and>
   predict_proba M0 (- 1, 0) = [1, 0, 0] \<and>
   [Fin (1 / 2)] ! 0 = dotf [Fin (1 / 2), Fin (1 / 2), Fin (1 / 4)] [1, 0, 0] \<and>
   [Fin (1 / 2)] ! 0 = [Fin (1 / 2), Fin (1 / 2), Fin (1 / 4 :: real)] ! 0"
proof -
  have l: "length [Fin 1, Fin (1 / 2), Fin (1 / 4)] =
      length [(1::nat, Fin (1 / 2)), (3, Fin 1), (5, Fin 1)]" by simp
  have j: "(0::nat) < length [(- 1 :: real, 0 :: real)]" by simp
  have a: "adjusted_rates [Fin 1, Fin (1 / 2), Fin (1 / 4)]
      [(1, Fin (1 / 2)), (3, Fin 1), (5, Fin 1)] = [Fin (1 / 2), Fin (1 / 2), Fin (1 / 4)]"
    by (simp add: adjusted_rates_def)
  have p: "predict_proba M0 (- 1, 0) = [1, 0, 0]" by (simp add: M0_def)
  from effective_probability_is_dot_product [OF weighted_one_shot_ex l j, of 0]
  show ?thesis using weighted_one_shot_ex a p by (simp add: nth_Cons' less_Suc_eq)
qed

text \<open>
  Claim C1 as stated fails without the proviso: the shot belongs to zone 0 with
  probability 1 and the adjusted rate of zone 0 is 1, but the adjustment of zone 2 is
  \<open>NaN\<close>, and \<open>NaN\<close> times 0 is \<open>NaN\<close>, so the effective probability is \<open>NaN\<close>.
\<close>

theorem undefined_adjustment_counterexample:
  "predict_proba M0 (- 1, 0) = [1, 0, 0] \<and>
   adjusted_rates [Fin 1, Fin (1 / 2), Fin (1 / 4)] [(1, Fin 1), (3, Fin 1), (5, NaN)] ! 0 = Fin 1 \<and>
   weighted_fg_percent [Fin 1, Fin (1 / 2), Fin (1 / 4)] [(1, Fin 1), (3, Fin 1), (5, NaN)]
     M0 [(- 1, 0)] = Inr [NaN]"
  by (simp add: weighted_fg_percent_def values_mul_series_def np_dot_def dotf_def fsum_def M0_def
      adjusted_rates_def)

section \<open>The attempt-volume estimate\<close>

lemma np_choice_resample:
  "d \<noteq> [] \<Longrightarrow>
   np_choice R d (length d) g =
     Inr (map (\<lambda>i. d ! i) (resample_indices R d g), resample_next R d g)"
  by (simp add: np_choice_def resample_indices_def resample_next_def split: prod.splits)

lemma resample_indices_range:
  assumes "rng_ok R" and "d \<noteq> []"
  shows "length (resample_indices R d g) = length d \<and>
         (\<forall>i \<in> set (resample_indices R d g). i < length d)"
proof -
  from assms(2) have "0 < length d" by simp
  with assms(1) show ?thesis unfolding rng_ok_def resample_indices_def by blast
qed

lemma np_mean_Fin: "xs \<noteq> [] \<Longrightarrow> np_mean (map Fin xs) = Fin (mean_of xs)"
  by (simp add: np_mean_def fsum_Fin mean_of_def)

lemma mean_of_squares_nonneg: "0 \<le> mean_of (map (\<lambda>x. (x - c) ^ 2) xs)"
  unfolding mean_of_def by (intro divide_nonneg_nonneg sum_list_nonneg) auto

lemma np_std_Fin: "xs \<noteq> [] \<Longrightarrow> np_std (map Fin xs) = Fin (std_of xs)"
proof -
  assume n: "xs \<noteq> []"
  have "map (\<lambda>x. fmul (fsub x (Fin (mean_of xs))) (fsub x (Fin (mean_of xs)))) (map Fin xs) =
        map Fin (map (\<lambda>x. (x - mean_of xs) ^ 2) xs)"
    by (simp add: fsub_def power2_eq_square)
  with n have "np_std (map Fin xs) = fsqrt (Fin (mean_of (map (\<lambda>x. (x - mean_of xs) ^ 2) xs)))"
    by (simp add: np_std_def Let_def np_mean_Fin del: map_map)
  with mean_of_squares_nonneg[of "mean_of xs" xs] show ?thesis
    by (simp add: std_of_def not_less[symmetric])
qed

lemma int_mean_resample:
  assumes "rng_ok R" and "d \<noteq> []"
  shows "int_mean (map (\<lambda>i. d ! i) (resample_indices R d g)) = Fin (resample_mean R d g)"
proof -
  from resample_indices_range[OF assms, of g]
  have l: "length (resample_indices R d g) = length d" by simp
  with assms(2) have n: "resample_indices R d g \<noteq> []" by auto
  have "map (\<lambda>x. Fin (real_of_int x)) (map (\<lambda>i. d ! i) (resample_indices R d g)) =
        map Fin (map (\<lambda>i. real_of_int (d ! i)) (resample_indices R d g))"
    by simp
  with n l show ?thesis
    by (simp add: int_mean_def np_mean_Fin mean_of_def resample_mean_def del: map_map)
qed

lemma resample_means_Suc:
  "resample_means R d (Suc n) g =
     resample_mean R d g # resample_means R d n (resample_next R d g)"
proof -
  have "[0..<Suc n] = 0 # map Suc [0..<n]"
    by (simp add: upt_conv_Cons map_Suc_upt del: upt_Suc)
  then show ?thesis
    by (simp add: resample_means_def funpow_swap1 comp_def del: upt_Suc)
qed

lemma fga_per_game_est_resamples:
  assumes "rng_ok R" and "d \<noteq> []"
  shows "fga_per_game_est R d n g =
           Inr (map Fin (resample_means R d n g), (resample_next R d ^^ n) g)"
proof (induction n arbitrary: g)
  case 0
  show ?case by (simp add: resample_means_def)
next
  case (Suc n)
  show ?case
    by (simp add: np_choice_resample[OF assms(2)] int_mean_resample[OF assms] Suc
        resample_means_Suc funpow_swap1)
qed

lemma resample_mean_constant:
  assumes "rng_ok R" and "d \<noteq> []" and "\<forall>x \<in> set d. x = c"
  shows "resample_mean R d g = real_of_int c"
proof -
  from resample_indices_range[OF assms(1,2)]
  have l: "length (resample_indices R d g) = length d"
    and b: "\<forall>i \<in> set (resample_indices R d g). i < length d" by auto
  from b assms(3) have "map (\<lambda>i. real_of_int (d ! i)) (resample_indices R d g) =
      replicate (length (resample_indices R d g)) (real_of_int c)"
    by (intro replicate_eqI) auto
  with l assms(2) show ?thesis
    by (simp add: resample_mean_def sum_list_replicate)
qed

lemma resample_means_constant:
  assumes "rng_ok R" and "d \<noteq> []" and "\<forall>x \<in> set d. x = c"
  shows "resample_means R d n g = replicate n (real_of_int c)"
  by (intro replicate_eqI)
     (auto simp: resample_means_def resample_mean_constant[OF assms])

lemma mean_of_replicate: "0 < n \<Longrightarrow> mean_of (replicate n c) = c"
  by (simp add: mean_of_def sum_list_replicate)

lemma std_of_replicate: "0 < n \<Longrightarrow> std_of (replicate n c) = 0"
  by (simp add: std_of_def mean_of_replicate)

lemma resample_means_ex: "resample_means R0 [1, 3] 2 0 = [1, 3]"
  by (simp add: resample_means_def resample_mean_def resample_indices_def resample_next_def
      R0_def numeral_2_eq_2)

lemma mean_std_ex: "mean_of [1, 3] = 2 \<and> std_of [1, 3] = 1"
  by (simp add: mean_of_def std_of_def)

text \<open>
  Claim C7. For a non-empty history and a positive number of samples the estimator
  returns the mean and the standard deviation of \<open>resample_means\<close>: one mean per
  sample, each the mean of a resample of indices into the history, as many as the history
  is long and drawn with replacement from the advancing generator. Consequently, when all
  counts of the history equal \<open>c\<close>, the mean is exactly \<open>c\<close> and the standard deviation
  exactly 0, whatever the generator draws. (Exact arithmetic; the indices drawn are
  assumed to lie within the history, as \<^verbatim>\<open>randint\<close> documents.)
\<close>

theorem bootstrap_estimate_of_resample_means:
  assumes "rng_ok R" and "d \<noteq> []" and "0 < bootstrap_samples"
  shows "fga_per_game_est_mean_std R d bootstrap_samples g =
           Inr (Fin (mean_of (resample_means R d bootstrap_samples g)),
                Fin (std_of (resample_means R d bootstrap_samples g)),
                (resample_next R d ^^ bootstrap_samples) g) \<and>
         length (resample_means R d bootstrap_samples g) = bootstrap_samples \<and>
         (\<forall>k<bootstrap_samples.
            length (resample_indices R d ((resample_next R d ^^ k) g)) = length d \<and>
            (\<forall>i \<in> set (resample_indices R d ((resample_next R d ^^ k) g)). i < length d)) \<and>
         ((\<forall>x \<in> set d. x = c) \<longrightarrow>
            fga_per_game_est_mean_std R d bootstrap_samples g =
              Inr (Fin (real_of_int c), Fin 0, (resample_next R d ^^ bootstrap_samples) g))"
proof -
  let ?ms = "resample_means R d bootstrap_samples g"
  have l: "length ?ms = bootstrap_samples" by (simp add: resample_means_def)
  with assms(3) have n: "?ms \<noteq> []" by auto
  from fga_per_game_est_resamples[OF assms(1,2), of bootstrap_samples g] n
  have e: "fga_per_game_est_mean_std R d bootstrap_samples g =
           Inr (Fin (mean_of ?ms), Fin (std_of ?ms), (resample_next R d ^^ bootstrap_samples) g)"
    by (simp add: fga_per_game_est_mean_std_def np_mean_Fin np_std_Fin)
  have c: "fga_per_game_est_mean_std R d bootstrap_samples g =
              Inr (Fin (real_of_int c), Fin 0, (resample_next R d ^^ bootstrap_samples) g)"
    if "\<forall>x \<in> set d. x = c"
    using e assms(3) resample_means_constant[OF assms(1,2) that, of bootstrap_samples g]
    by (simp add: mean_of_replicate std_of_replicate)
  from e l c resample_indices_range[OF assms(1,2)] show ?thesis by blast
qed

theorem bootstrap_estimate_of_resample_means_witness:
  "rng_ok R0 \<and> [1, 3 :: int] \<noteq> [] \<and> (0::nat) < 2 \<and>
   resample_means R0 [1, 3] 2 0 = [1, 3] \<and>
   fga_per_game_est_mean_std R0 [1, 3] 2 0 = Inr (Fin 2, Fin 1, 2) \<and>
   [5, 5, 5, 5, 5 :: int] \<noteq> [] \<and> set [5, 5, 5, 5, 5 :: int] = {5} \<and> (0::nat) < 1000 \<and>
   (\<exists>g'. fga_per_game_est_mean_std R0 [5, 5, 5, 5, 5] 1000 0 = Inr (Fin 5, Fin 0, g'))"
proof -
  have a: "[1, 3 :: int] \<noteq> []" by simp
  have b: "(0::nat) < 2" by simp
  have n: "(resample_next R0 [1, 3] ^^ 2) 0 = 2"
    by (simp add: resample_next_def R0_def numeral_2_eq_2)
  from bootstrap_estimate_of_resample_means [OF rng_ok_R0 a b, of 0] resample_means_ex mean_std_ex n
  have one: "fga_per_game_est_mean_std R0 [1, 3] 2 0 = Inr (Fin 2, Fin 1, 2)" by simp
  have a5: "[5, 5, 5, 5, 5 :: int] \<noteq> []" by simp
  have b5: "(0::nat) < 1000" by simp
  have c5: "\<forall>x \<in> set [5, 5, 5, 5, 5 :: int]. x = 5" by simp
  from bootstrap_estimate_of_resample_means [OF rng_ok_R0 a5 b5, of 0 5] c5
  have two: "\<exists>g'. fga_per_game_est_mean_std R0 [5, 5, 5, 5, 5] 1000 0 = Inr (Fin 5, Fin 0, g')"
    by (metis of_int_numeral)
  from one two show ?thesis using rng_ok_R0 resample_means_ex by simp
qed

section \<open>The model search\<close>































section \<open>The rate tables and the adjustment on concrete shot data\<close>

lemma labels_threes_ex:
  "map (predict M0) (threes_train_xy threes_ex) = [0, 0, 0, 1, 2, 2, 2]"
  by (simp add: threes_train_xy_def threes_ex_def mk_shot_def M0_def)

lemma labels_league_ex:
  "map (predict M0) (league_test_xy league_ex) = [0, 1, 1, 1, 0, 0, 1, 1, 1]"
  by (simp add: league_test_xy_def league_ex_def mk_league_shot_def M0_def)

lemma counts_threes_ex:
  "groupby_value_counts [(0, 1), (0, 0), (0, 0), (1, 0), (2, 1), (2, 0), (2, 0)] =
     [(0, 0, 2 / 3), (0, 1, 1 / 3), (1, 0, 1), (2, 0, 2 / 3), (2, 1, 1 / 3)]"
  by (simp add: groupby_value_counts_def value_counts_normalize_def)

lemma counts_league_ex:
  "groupby_value_counts [(0, 0), (1, 1), (1, 0), (1, 0), (0, 1), (0, 0), (1, 1), (1, 0), (1, 0)] =
     [(0, 0, 2 / 3), (0, 1, 1 / 3), (1, 0, 2 / 3), (1, 1, 1 / 3)]"
  by (simp add: groupby_value_counts_def value_counts_normalize_def)

lemma counts_opponent_ex:
  "groupby_value_counts [(0, 0), (1, 1), (1, 0), (1, 0)] =
     [(0, 0, 1), (1, 0, 2 / 3), (1, 1, 1 / 3)]"
  by (simp add: groupby_value_counts_def value_counts_normalize_def)

lemma league_flags_ex: "map league_SHOT_MADE_FLAG league_ex = [0, 1, 0, 0, 1, 0, 1, 0, 0]"
  by (simp add: league_ex_def mk_league_shot_def)

lemma league_table_ex:
  "league_fg_percent_by_cluster league_ex [0, 1, 1, 1, 0, 0, 1, 1, 1] =
     [(1, Fin (1 / 3)), (3, Fin (1 / 3))]"
  unfolding league_fg_percent_by_cluster_def league_flags_ex
  using counts_league_ex by (simp add: made_rows_def)

lemma opponent_rows_ex:
  "map (\<lambda>(c, s). (c, league_SHOT_MADE_FLAG s))
     (filter (\<lambda>(c, s). DEF s = Some ''BOS'') (zip [0, 1, 1, 1, 0, 0, 1, 1, 1] league_ex)) =
   [(0, 0), (1, 1), (1, 0), (1, 0)]"
  by (simp add: league_ex_def mk_league_shot_def)

lemma opponent_table_ex:
  "opponent_fg_percent_by_cluster league_ex [0, 1, 1, 1, 0, 0, 1, 1, 1] ''BOS'' =
     [(2, Fin (1 / 3))]"
  unfolding opponent_fg_percent_by_cluster_def opponent_rows_ex
  using counts_opponent_ex by (simp add: made_rows_def)

text \<open>
  Claim C2, evaluated on the code. The player has one make in three attempts in zones 0
  and 2 and a single missed attempt in zone 1. The claim asks for the table
  \<open>0 \<mapsto> 1/3, 1 \<mapsto> 0, 2 \<mapsto> 1/3\<close>. The code keeps only the rows whose flag is 1 and
  labels them by their row number among all rows: the table has two entries, labelled 1
  and 4, and zone 1 has neither the rate 0 nor an undefined marker. With an adjustment
  for each of the three zones the product of the next step raises.
\<close>

theorem zone_without_makes_has_no_rate:
  "map (predict M0) (threes_train_xy threes_ex) = [0, 0, 0, 1, 2, 2, 2] \<and>
   map SHOT_MADE_FLAG threes_ex = [1, 0, 0, 0, 1, 0, 0] \<and>
   fg_percent_by_cluster threes_ex (map (predict M0) (threes_train_xy threes_ex)) =
     [(1, Fin (1 / 3)), (4, Fin (1 / 3))] \<and>
   weighted_fg_percent
     (map snd (fg_percent_by_cluster threes_ex (map (predict M0) (threes_train_xy threes_ex))))
     [(1, Fin 1), (3, Fin 1), (5, Fin 1)] M0 [(- 1, 0)] = Inl ValueError"
proof -
  have m: "map SHOT_MADE_FLAG threes_ex = [1, 0, 0, 0, 1, 0, 0]"
    by (simp add: threes_ex_def mk_shot_def)
  have "fg_percent_by_cluster threes_ex [0, 0, 0, 1, 2, 2, 2] = [(1, Fin (1 / 3)), (4, Fin (1 / 3))]"
    unfolding fg_percent_by_cluster_def m
    using counts_threes_ex by (simp add: made_rows_def)
  moreover have "weighted_fg_percent (map snd [(1::nat, Fin (1 / 3)), (4, Fin (1 / 3))])
     [(1, Fin 1), (3, Fin 1), (5, Fin 1)] M0 [(- 1, 0)] = Inl ValueError"
    by (simp add: weighted_fg_percent_def values_mul_series_def)
  ultimately show ?thesis using m labels_threes_ex by simp
qed

text \<open>
  Claim C4, evaluated on the code. League-wide the make rate is \<open>1/3\<close> in zones 0 and
  1; against BOS it is \<open>1/3\<close> in zone 1, and zone 0 saw one miss. The claim asks for the
  adjustment \<open>(1/3) / (1/3) = 1\<close> in zone 1. The division pairs the two tables by their
  row labels, not by zone: the league's rows are labelled 1 and 3, the opponent's row 2,
  no label is shared, and the result has three entries, all \<open>NaN\<close>.
\<close>

theorem adjustment_pairs_row_labels:
  "map (predict M0) (league_test_xy league_ex) = [0, 1, 1, 1, 0, 0, 1, 1, 1] \<and>
   league_fg_percent_by_cluster league_ex (map (predict M0) (league_test_xy league_ex)) =
     [(1, Fin (1 / 3)), (3, Fin (1 / 3))] \<and>
   opponent_fg_percent_by_cluster league_ex (map (predict M0) (league_test_xy league_ex)) ''BOS'' =
     [(2, Fin (1 / 3))] \<and>
   def_adjustment league_ex (map (predict M0) (league_test_xy league_ex)) ''BOS'' =
     [(1, NaN), (2, NaN), (3, NaN)]"
proof -
  have "def_adjustment league_ex [0, 1, 1, 1, 0, 0, 1, 1, 1] ''BOS'' = [(1, NaN), (2, NaN), (3, NaN)]"
    unfolding def_adjustment_def
    using league_table_ex opponent_table_ex by (simp add: series_div_def)
  with labels_league_ex league_table_ex opponent_table_ex show ?thesis by simp
qed

end
